theory Spec2Isabelle
  imports Complex_Main "HOL-Library.Char_ord" "HOL-Library.List_Lexorder"
begin

section \<open>The movie recommender of main.py\<close>

text \<open>
  The theory embeds the classes \<^verbatim>\<open>Movie\<close> and \<^verbatim>\<open>MovieRecommender\<close> of
  \<^verbatim>\<open>main.py\<close>. The library calls of the source (\<^verbatim>\<open>TfidfVectorizer\<close>, \<^verbatim>\<open>MinMaxScaler\<close>,
  \<^verbatim>\<open>cosine_similarity\<close>, \<^verbatim>\<open>ndarray.argsort\<close>, \<^verbatim>\<open>np.hstack\<close>) are written out as the
  functions they compute with the arguments the source passes. What a library leaves
  open or takes from the machine is a field of the environment \<open>env\<close>.

  Numbers are reals. The scaler rounds the result of each of its operations with the
  rounding of the environment, as the element-wise operations of the library do. The sums
  of the dot products, the square roots and the logarithms are exact here: the libraries
  do not fix the order of these operations, so their rounding is not modelled.
\<close>

subsection \<open>Data\<close>

text \<open>
  \<^verbatim>\<open>Movie.__init__\<close> stores its arguments; \<^verbatim>\<open>release_year\<close> is the year of the parsed
  date. \<^verbatim>\<open>vote_count\<close> is a count, so it is a natural number here and
  \<^verbatim>\<open>np.log1p\<close> is always defined on it.
\<close>

record Movie =
  title :: string
  genres :: string
  "keywords" :: string
  companies :: string
  popularity :: real
  release_year :: int
  runtime :: real
  cast :: string
  vote_count :: nat
  vote_average :: real

text \<open>
  Every failure of \<^verbatim>\<open>calculate_similarity\<close> is a Python \<^verbatim>\<open>ValueError\<close>; the constructors
  tell the raising places apart. \<open>MovieNotFound\<close> is the \<^verbatim>\<open>raise\<close> of line 203, with the
  title of its message. \<open>EmptyVocabulary\<close> is raised by \<^verbatim>\<open>TfidfVectorizer.fit_transform\<close>
  when no term is left after the stop words are removed, and \<open>EmptyArray\<close> by
  \<^verbatim>\<open>MinMaxScaler.fit_transform\<close> on an array of no samples.
\<close>

datatype error = MovieNotFound string | EmptyVocabulary | EmptyArray

text \<open>
  What the code takes from outside the program:
  \<^item> \<open>stop_words\<close>: the list that \<^verbatim>\<open>stop_words='english'\<close> selects in the library;
  \<^item> \<open>current_year\<close>: \<^verbatim>\<open>datetime.now().year\<close>;
  \<^item> \<open>str_lower\<close>: Python's \<^verbatim>\<open>str.lower\<close>, which folds the letters of all scripts by the
    Unicode tables;
  \<^item> \<open>tie_rank\<close>: the order \<^verbatim>\<open>argsort\<close> gives rows of equal score, which the library does
    not promise: for the array sorted, the rank of each row among its equals;
  \<^item> \<open>fl\<close>: the rounding of the result of a floating-point operation.
\<close>

record env =
  stop_words :: "string list"
  current_year :: int
  str_lower :: "string \<Rightarrow> string"
  tie_rank :: "real list \<Rightarrow> nat \<Rightarrow> nat"
  fl :: "real \<Rightarrow> real"

record MovieRecommender =
  movies :: "Movie list"
  feature_matrix :: "real list list option"
  movie_indices :: "string \<rightharpoonup> nat"

subsection \<open>Construction: the title index\<close>

text \<open>
  \<^verbatim>\<open>{movie.title: i for i, movie in enumerate(self.movies)}\<close>: the comprehension stores
  the pairs in list order, a later store of the same key replacing the earlier one.
\<close>

fun index_titles :: "nat \<Rightarrow> Movie list \<Rightarrow> (string \<rightharpoonup> nat) \<Rightarrow> (string \<rightharpoonup> nat)" where
  "index_titles i [] m = m"
| "index_titles i (x # xs) m = index_titles (Suc i) xs (m(title x \<mapsto> i))"

definition init :: "Movie list \<Rightarrow> MovieRecommender" where
  "init ms = \<lparr>movies = ms, feature_matrix = None, movie_indices = index_titles 0 ms Map.empty\<rparr>"

subsection \<open>The text features\<close>

text \<open>
  The vectorizer lower-cases a document (its default \<^verbatim>\<open>lowercase=True\<close>) with
  \<^verbatim>\<open>str.lower\<close>, then calls the tokenizer \<^verbatim>\<open>lambda x: x.split('|')\<close>, then drops the
  tokens that are stop words.
\<close>

text \<open>\<^verbatim>\<open>str.split('|')\<close>: the pieces between the bars, empty pieces kept; the empty string
  gives one empty piece.\<close>

fun split_bar :: "string \<Rightarrow> string list" where
  "split_bar [] = [[]]"
| "split_bar (c # cs) =
     (if c = CHR ''|'' then [] # split_bar cs
      else (case split_bar cs of [] \<Rightarrow> [[c]] | w # ws \<Rightarrow> (c # w) # ws))"

definition analyze :: "env \<Rightarrow> string \<Rightarrow> string list" where
  "analyze e doc = filter (\<lambda>t. t \<notin> set (stop_words e)) (split_bar (str_lower e doc))"

text \<open>The vocabulary is the set of terms of all documents, its columns in sorted order.\<close>

definition vocabulary :: "string list list \<Rightarrow> string list" where
  "vocabulary docs = sort (remdups (concat docs))"

definition doc_freq :: "string list list \<Rightarrow> string \<Rightarrow> nat" where
  "doc_freq docs t = length (filter (\<lambda>d. t \<in> set d) docs)"

text \<open>The smoothed inverse document frequency of the library's defaults
  (\<^verbatim>\<open>use_idf=True, smooth_idf=True\<close>).\<close>

definition idf :: "string list list \<Rightarrow> string \<Rightarrow> real" where
  "idf docs t = ln ((1 + real (length docs)) / (1 + real (doc_freq docs t))) + 1"

definition dot :: "real list \<Rightarrow> real list \<Rightarrow> real" where
  "dot xs ys = sum_list (map (\<lambda>(x, y). x * y) (zip xs ys))"

definition l2_norm :: "real list \<Rightarrow> real" where
  "l2_norm xs = sqrt (dot xs xs)"

text \<open>
  The l2 normalisation of a row of the sparse matrix the vectorizer holds
  (\<^verbatim>\<open>inplace_csr_row_normalize_l2\<close>): a row whose squares sum to zero is skipped.
\<close>

definition normalize_csr :: "real list \<Rightarrow> real list" where
  "normalize_csr xs = (if l2_norm xs = 0 then xs else map (\<lambda>x. x / l2_norm xs) xs)"

definition tfidf_row :: "string list list \<Rightarrow> string list \<Rightarrow> string list \<Rightarrow> real list" where
  "tfidf_row docs voc d = normalize_csr (map (\<lambda>t. real (count_list d t) * idf docs t) voc)"

text \<open>\<^verbatim>\<open>vectorizer.fit_transform(texts).toarray()\<close>: vocabulary and weights are fitted on
  the texts of this call alone.\<close>

definition fit_transform :: "env \<Rightarrow> string list \<Rightarrow> error + real list list" where
  "fit_transform e texts =
     (let docs = map (analyze e) texts; voc = vocabulary docs
      in if voc = [] then Inl EmptyVocabulary
         else Inr (map (tfidf_row docs voc) docs))"

subsection \<open>The continuous features\<close>

definition continuous_row :: "int \<Rightarrow> Movie \<Rightarrow> real list" where
  "continuous_row year m =
     [real_of_int (year - release_year m), runtime m, popularity m, vote_average m,
      ln (1 + real (vote_count m))]"

text \<open>The smallest and the largest value of a column. The scaler is never given an
  empty column: it raises first.\<close>

fun list_min :: "real list \<Rightarrow> real" where
  "list_min [] = 0"
| "list_min (x # xs) = fold min xs x"

fun list_max :: "real list \<Rightarrow> real" where
  "list_max [] = 0"
| "list_max (x # xs) = fold max xs x"

definition column :: "real list list \<Rightarrow> nat \<Rightarrow> real list" where
  "column rows j = map (\<lambda>r. r ! j) rows"

text \<open>The machine epsilon of a double, \<^verbatim>\<open>np.finfo(float64).eps\<close>.\<close>

definition finfo_eps :: real where
  "finfo_eps = 1 / 2 ^ 52"

text \<open>
  \<^verbatim>\<open>MinMaxScaler\<close> with the range (0, 1), each operation rounded by \<open>f\<close>. Per column:
  \<^verbatim>\<open>data_range = data_max - data_min\<close>; a range below ten epsilon counts as constant and
  is replaced by 1 (\<^verbatim>\<open>_handle_zeros_in_scale\<close>); \<^verbatim>\<open>scale_ = (1 - 0) / data_range\<close>;
  \<^verbatim>\<open>min_ = 0 - data_min * scale_\<close>; the transform is \<^verbatim>\<open>X *= scale_\<close>, then
  \<^verbatim>\<open>X += min_\<close>.
\<close>

definition data_range :: "(real \<Rightarrow> real) \<Rightarrow> real list \<Rightarrow> real" where
  "data_range f col = f (list_max col - list_min col)"

definition scale_of :: "(real \<Rightarrow> real) \<Rightarrow> real list \<Rightarrow> real" where
  "scale_of f col =
     f (1 / (if data_range f col < 10 * finfo_eps then 1 else data_range f col))"

definition min_of :: "(real \<Rightarrow> real) \<Rightarrow> real list \<Rightarrow> real" where
  "min_of f col = f (0 - f (list_min col * scale_of f col))"

definition scale_row :: "(real \<Rightarrow> real) \<Rightarrow> real list list \<Rightarrow> real list \<Rightarrow> real list" where
  "scale_row f rows r =
     map (\<lambda>j. f (f (r ! j * scale_of f (column rows j)) + min_of f (column rows j)))
       [0..<length r]"

definition minmax_fit_transform :: "(real \<Rightarrow> real) \<Rightarrow> real list list \<Rightarrow> error + real list list" where
  "minmax_fit_transform f rows =
     (if rows = [] then Inl EmptyArray else Inr (map (scale_row f rows) rows))"

subsection \<open>feature\_engineering\<close>

text \<open>\<^verbatim>\<open>np.hstack\<close> of matrices with the same number of rows: the rows are joined.\<close>

fun hstack2 :: "real list list \<Rightarrow> real list list \<Rightarrow> real list list" where
  "hstack2 a b = map (\<lambda>(x, y). x @ y) (zip a b)"

text \<open>
  The method computes a matrix from \<^verbatim>\<open>self.movies\<close> and assigns it to
  \<^verbatim>\<open>self.feature_matrix\<close>; the function here gives the matrix, and its one caller
  stores it. The three \<^verbatim>\<open>fit_transform\<close> calls come first, in the order genres,
  keywords, cast, so the first of them that raises decides the error; the scaler runs
  after them.
\<close>

definition feature_engineering :: "env \<Rightarrow> Movie list \<Rightarrow> error + real list list" where
  "feature_engineering e ms =
     (case fit_transform e (map genres ms) of Inl err \<Rightarrow> Inl err
      | Inr genres_matrix \<Rightarrow>
     (case fit_transform e (map keywords ms) of Inl err \<Rightarrow> Inl err
      | Inr keywords_matrix \<Rightarrow>
     (case fit_transform e (map cast ms) of Inl err \<Rightarrow> Inl err
      | Inr cast_matrix \<Rightarrow>
     (let combined_features = hstack2 (hstack2 genres_matrix keywords_matrix) cast_matrix
      in case minmax_fit_transform (fl e) (map (continuous_row (current_year e)) ms) of
           Inl err \<Rightarrow> Inl err
         | Inr continuous_features \<Rightarrow> Inr (hstack2 combined_features continuous_features)))))"

subsection \<open>calculate\_similarity\<close>

text \<open>
  \<^verbatim>\<open>sklearn.preprocessing.normalize\<close> on a dense row, as \<^verbatim>\<open>cosine_similarity\<close> calls it:
  the norm goes through \<^verbatim>\<open>_handle_zeros_in_scale\<close>, so a row whose norm is below ten
  epsilon is divided by 1, that is, left as it is.
\<close>

definition normalize :: "real list \<Rightarrow> real list" where
  "normalize xs = (if l2_norm xs < 10 * finfo_eps then xs else map (\<lambda>x. x / l2_norm xs) xs)"

text \<open>\<^verbatim>\<open>cosine_similarity([x], M)[0]\<close>: both sides are normalised, then multiplied.\<close>

definition cosine_similarity :: "real list \<Rightarrow> real list list \<Rightarrow> real list" where
  "cosine_similarity x M = map (\<lambda>y. dot (normalize x) (normalize y)) M"

text \<open>
  \<^verbatim>\<open>argsort()\<close> gives the row numbers in ascending order of their score, rows of equal
  score in the order of the environment's \<open>tie_rank\<close> for this array, rows of equal score
  and rank in row order. Every ascending order of the rows is the order of some
  \<open>tie_rank\<close> (\<open>argsort_any_order\<close> below), so nothing is assumed of the library's order
  of equal scores.
\<close>

definition argsort :: "env \<Rightarrow> real list \<Rightarrow> nat list" where
  "argsort e scores =
     sort_key (\<lambda>i. scores ! i) (sort_key (tie_rank e scores) [0..<length scores])"

text \<open>\<^verbatim>\<open>argsort()[::-1][1:6]\<close>: reversed, then the positions 1 to 5; a slice past the end
  is cut off, it never raises.\<close>

definition most_similar_indices :: "env \<Rightarrow> real list \<Rightarrow> nat list" where
  "most_similar_indices e scores = take 5 (drop 1 (rev (argsort e scores)))"

text \<open>
  The method returns its result or raises, and may have stored the matrix: the model
  returns the result together with the recommender after the call. When
  \<^verbatim>\<open>feature_engineering\<close> raises, nothing has been stored.
\<close>

definition calculate_similarity ::
  "env \<Rightarrow> MovieRecommender \<Rightarrow> string \<Rightarrow> (error + string list) \<times> MovieRecommender" where
  "calculate_similarity e r target_movie_title =
     (case (case feature_matrix r of
              None \<Rightarrow> feature_engineering e (movies r)
            | Some M \<Rightarrow> Inr M) of
        Inl err \<Rightarrow> (Inl err, r)
      | Inr M \<Rightarrow>
         (let r' = r\<lparr>feature_matrix := Some M\<rparr>
          in case movie_indices r' target_movie_title of
               None \<Rightarrow> (Inl (MovieNotFound target_movie_title), r')
             | Some target_idx \<Rightarrow>
                (let similarity_scores = cosine_similarity (M ! target_idx) M;
                     recommendations =
                       map (\<lambda>i. title (movies r' ! i))
                         (most_similar_indices e similarity_scores)
                 in (Inr recommendations, r'))))"

subsection \<open>States of a recommender\<close>

text \<open>
  The states the class can be in: the index is the one \<^verbatim>\<open>__init__\<close> built from the
  list, and a stored matrix is the one \<^verbatim>\<open>feature_engineering\<close> builds from it.
\<close>

definition consistent :: "env \<Rightarrow> MovieRecommender \<Rightarrow> bool" where
  "consistent e r \<longleftrightarrow>
     movie_indices r = index_titles 0 (movies r) Map.empty \<and>
     (case feature_matrix r of
        None \<Rightarrow> True
      | Some M \<Rightarrow> feature_engineering e (movies r) = Inr M)"

subsection \<open>Double precision\<close>

text \<open>
  The rounding of a real number to the nearest double, ties to the even significand:
  the number is scaled by the power of two of its binade so that its significand lies
  between \<open>2^52\<close> and \<open>2^53\<close>, rounded to an integer there, and scaled back. Overflow and
  subnormal numbers are left out; the scaler meets neither on the data below.
\<close>

definition round_half_even :: "real \<Rightarrow> int" where
  "round_half_even y =
     (if y - of_int \<lfloor>y\<rfloor> < 1 / 2 then \<lfloor>y\<rfloor>
      else if 1 / 2 < y - of_int \<lfloor>y\<rfloor> then \<lfloor>y\<rfloor> + 1
      else if even \<lfloor>y\<rfloor> then \<lfloor>y\<rfloor> else \<lfloor>y\<rfloor> + 1)"

definition binade :: "real \<Rightarrow> int" where
  "binade x = \<lfloor>log 2 \<bar>x\<bar>\<rfloor>"

definition round_double :: "real \<Rightarrow> real" where
  "round_double x =
     (if x = 0 then 0
      else of_int (round_half_even (x / 2 powi (binade x - 52))) * 2 powi (binade x - 52))"

text \<open>
  What the properties below use of a rounding: it keeps 0, commutes with the sign, is
  monotone and leaves its own results as they are. \<open>round_double\<close> is one
  (\<open>is_rounding_round_double\<close>), and so is exact arithmetic.
\<close>

definition is_rounding :: "(real \<Rightarrow> real) \<Rightarrow> bool" where
  "is_rounding f \<longleftrightarrow>
     f 0 = 0 \<and> (\<forall>x. f (- x) = - f x) \<and> (\<forall>x. f (f x) = f x) \<and> (\<forall>x y. x \<le> y \<longrightarrow> f x \<le> f y)"

text \<open>\<^verbatim>\<open>str.lower\<close> on ASCII text: the letters A to Z are folded, every other character is
  kept.\<close>

definition lower_char :: "char \<Rightarrow> char" where
  "lower_char c =
     (if CHR ''A'' \<le> c \<and> c \<le> CHR ''Z'' then char_of (of_char c + (32::nat)) else c)"

definition ascii_lower :: "string \<Rightarrow> string" where
  "ascii_lower s = map lower_char s"

subsection \<open>The specification's notions\<close>


text \<open>The specification's result length for a parameter \<open>k\<close> and a catalog of \<open>n\<close>
  items.\<close>

definition spec_result_length :: "nat \<Rightarrow> nat \<Rightarrow> nat" where
  "spec_result_length k n = min k (n - 1)"

text \<open>
  The TF-IDF weight of a term in a document of a collection: the number of its
  occurrences in the document times its smoothed inverse document frequency,
  \<open>ln ((1 + n) / (1 + df)) + 1\<close>, where \<open>n\<close> is the number of documents and \<open>df\<close> the
  number of those that contain the term.
\<close>

definition tfidf_weight :: "string list list \<Rightarrow> string list \<Rightarrow> string \<Rightarrow> real" where
  "tfidf_weight docs d t =
     real (length (filter (\<lambda>s. s = t) d)) *
     (ln ((1 + real (length docs)) / (1 + real (card {k. k < length docs \<and> t \<in> set (docs ! k)})))
      + 1)"

text \<open>
  A matrix is the TF-IDF matrix of a collection of token lists when its columns are the
  distinct terms of the collection in ascending order, and each row is a positive
  multiple of the weights of its document's terms, of Euclidean length 1 unless all its
  weights are 0.
\<close>

definition tfidf_block :: "string list list \<Rightarrow> real list list \<Rightarrow> bool" where
  "tfidf_block docs X \<longleftrightarrow>
     (\<exists>voc. sorted voc \<and> distinct voc \<and> set voc = (\<Union>d\<in>set docs. set d) \<and>
        length X = length docs \<and>
        (\<forall>i<length docs.
           length (X ! i) = length voc \<and>
           (\<exists>c>0. \<forall>j<length voc. X ! i ! j = c * tfidf_weight docs (docs ! i) (voc ! j)) \<and>
           (sum_list (map (\<lambda>v. v * v) (X ! i)) = 1 \<or> set (X ! i) \<subseteq> {0})))"

text \<open>The position of a row number in an order of the rows.\<close>

definition position :: "nat list \<Rightarrow> nat \<Rightarrow> nat" where
  "position p i = length (takeWhile (\<lambda>x. x \<noteq> i) p)"

subsection \<open>Example catalogs\<close>

text \<open>
  The example environment: an excerpt of the library's English stop list (of the tokens
  of the example movies only \<open>the\<close> and \<open>fire\<close> are in the full list), texts in ASCII,
  rows of equal score left in row order by \<^verbatim>\<open>argsort\<close>, as the insertion sort of the
  library's default kind leaves them, and double precision. \<open>exact_env\<close> differs from it
  in the rounding only: it has none.
\<close>

definition example_env :: env where
  "example_env =
     \<lparr>stop_words = [''a'', ''an'', ''and'', ''fire'', ''the''], current_year = 2024,
      str_lower = ascii_lower, tie_rank = (\<lambda>scores i. 0), fl = round_double\<rparr>"

definition exact_env :: env where
  "exact_env = example_env\<lparr>fl := (\<lambda>x. x)\<rparr>"

definition drama :: "string \<Rightarrow> Movie" where
  "drama t =
     \<lparr>title = t, genres = ''Drama'', keywords = ''family'', companies = ''Paramount'',
      popularity = 5, release_year = 2000, runtime = 100, cast = ''Ann Lee'',
      vote_count = 10, vote_average = 7\<rparr>"

definition action :: "string \<Rightarrow> Movie" where
  "action t =
     \<lparr>title = t, genres = ''Action'', keywords = ''space war'', companies = ''Paramount'',
      popularity = 5, release_year = 2000, runtime = 100, cast = ''Bo Kim'',
      vote_count = 10, vote_average = 7\<rparr>"

text \<open>Three movies with distinct titles; the second and the third agree in every
  field that enters the features.\<close>

definition catalog3 :: "Movie list" where
  "catalog3 = [drama ''Drama One'', action ''Action One'', action ''Action Two'']"

text \<open>The same movies, the first and the last sharing a title.\<close>

definition catalog_dup :: "Movie list" where
  "catalog_dup = [drama ''Heat'', action ''Ronin'', action ''Heat'']"

definition catalog1 :: "Movie list" where
  "catalog1 = [drama ''Drama One'']"

text \<open>One movie whose only keyword is a stop word.\<close>

definition catalog_fire :: "Movie list" where
  "catalog_fire = [(action ''Backdraft'')\<lparr>keywords := ''Fire''\<rparr>]"

text \<open>The feature matrix of the three movies.\<close>

definition matrix3 :: "real list list" where
  "matrix3 =
     [[0, 1, 1, 0, 1, 0, 0, 0, 0, 0, 0],
      [1, 0, 0, 1, 0, 1, 0, 0, 0, 0, 0],
      [1, 0, 0, 1, 0, 1, 0, 0, 0, 0, 0]]"

text \<open>Two movies whose genres share one term of two; their feature matrix.\<close>

definition catalog2 :: "Movie list" where
  "catalog2 =
     [(action ''Inception'')\<lparr>genres := ''Action|Adventure''\<rparr>,
      (action ''The Matrix'')\<lparr>genres := ''Action|Sci-Fi''\<rparr>]"

definition genres2 :: "real list list" where
  "genres2 =
     [[1 / sqrt (1 + (ln (3 / 2) + 1) * (ln (3 / 2) + 1)),
       (ln (3 / 2) + 1) / sqrt (1 + (ln (3 / 2) + 1) * (ln (3 / 2) + 1)), 0],
      [1 / sqrt (1 + (ln (3 / 2) + 1) * (ln (3 / 2) + 1)), 0,
       (ln (3 / 2) + 1) / sqrt (1 + (ln (3 / 2) + 1) * (ln (3 / 2) + 1))]]"

definition matrix2 :: "real list list" where
  "matrix2 = [genres2 ! 0 @ [1, 1, 0, 0, 0, 0, 0], genres2 ! 1 @ [1, 1, 0, 0, 0, 0, 0]]"

text \<open>Two movies that differ in their runtime, 80 and 106 minutes; their feature
  matrix in double precision.\<close>

definition catalog_runtime :: "Movie list" where
  "catalog_runtime = [(drama ''Short'')\<lparr>runtime := 80\<rparr>, (drama ''Long'')\<lparr>runtime := 106\<rparr>]"

definition matrix_runtime :: "real list list" where
  "matrix_runtime =
     [[1, 1, 1, 0, 0, 0, 0, 0],
      [1, 1, 1, 0, 1 + 1 / 2 ^ 51, 0, 0, 0]]"



section \<open>Properties\<close>

subsection \<open>Rounding to a double\<close>

lemma rhe_of_int [simp]: "round_half_even (of_int n) = n"
  by (simp add: round_half_even_def)

lemma rhe_bounds: "\<lfloor>y\<rfloor> \<le> round_half_even y" "round_half_even y \<le> \<lfloor>y\<rfloor> + 1"
  by (simp_all add: round_half_even_def)

lemma rhe_minus: "round_half_even (- y) = - round_half_even y"
proof (cases "y = of_int \<lfloor>y\<rfloor>")
  case True
  then obtain n where n: "y = of_int n" ..
  have "round_half_even (of_int (- n)) = - n" by (rule rhe_of_int)
  then show ?thesis by (simp add: n)
next
  case False
  define f where "f = \<lfloor>y\<rfloor>"
  define d where "d = y - of_int f"
  have "\<lceil>y\<rceil> = f + 1" using False by (simp add: ceiling_altdef f_def)
  then have fl: "\<lfloor>- y\<rfloor> = - f - 1" by (simp add: ceiling_def)
  have d0: "0 < d" using False of_int_floor_le[of y] by (simp add: d_def f_def less_le)
  have e: "- y - of_int (- f - 1) = 1 - d" by (simp add: d_def)
  have ev: "even (- f - 1) \<longleftrightarrow> odd f" by simp
  consider "d < 1 / 2" | "1 / 2 < d" | "d = 1 / 2" by linarith
  then show ?thesis
  proof cases
    case 1
    then have "round_half_even y = f"
      by (simp add: round_half_even_def f_def[symmetric] d_def[symmetric])
    moreover from 1 have "round_half_even (- y) = - f"
      unfolding round_half_even_def fl e by simp
    ultimately show ?thesis by simp
  next
    case 2
    then have "round_half_even y = f + 1"
      by (simp add: round_half_even_def f_def[symmetric] d_def[symmetric])
    moreover from 2 have "round_half_even (- y) = - f - 1"
      unfolding round_half_even_def fl e by simp
    ultimately show ?thesis by simp
  next
    case 3
    then have "round_half_even y = (if even f then f else f + 1)"
      by (simp add: round_half_even_def f_def[symmetric] d_def[symmetric])
    moreover from 3 have "round_half_even (- y) = (if odd f then - f - 1 else - f)"
      unfolding round_half_even_def fl e ev by simp
    ultimately show ?thesis by simp
  qed
qed

lemma rhe_mono: "x \<le> y \<Longrightarrow> round_half_even x \<le> round_half_even y"
proof -
  assume xy: "x \<le> y"
  then have f: "\<lfloor>x\<rfloor> \<le> \<lfloor>y\<rfloor>" by (rule floor_mono)
  show ?thesis
  proof (cases "\<lfloor>x\<rfloor> = \<lfloor>y\<rfloor>")
    case True
    then show ?thesis using xy unfolding round_half_even_def by auto
  next
    case False
    with f have "\<lfloor>x\<rfloor> + 1 \<le> \<lfloor>y\<rfloor>" by simp
    with rhe_bounds(2)[of x] rhe_bounds(1)[of y] show ?thesis by linarith
  qed
qed

lemma rhe_ge: "of_int a \<le> y \<Longrightarrow> a \<le> round_half_even y"
  using rhe_mono[of "of_int a" y] by simp

lemma rhe_le: "y \<le> of_int b \<Longrightarrow> round_half_even y \<le> b"
  using rhe_mono[of y "of_int b"] by simp

lemma binade_eqI:
  assumes "2 powi k \<le> \<bar>x\<bar>" and "\<bar>x\<bar> < 2 powi (k + 1)"
  shows "binade x = k"
proof -
  have "0 < (2::real) powi k" by simp
  with assms(1) have pos: "0 < \<bar>x\<bar>" by linarith
  have "(2::real) powr real_of_int k = 2 powi k"
    "(2::real) powr (real_of_int k + 1) = 2 powi (k + 1)"
    using powr_real_of_int'[of "2::real" k] powr_real_of_int'[of "2::real" "k + 1"] by simp_all
  then have "2 powr real_of_int k \<le> \<bar>x\<bar> \<and> \<bar>x\<bar> < 2 powr (real_of_int k + 1)"
    using assms by simp
  then show ?thesis
    unfolding binade_def using floor_log_eq_powr_iff[OF pos, of 2 k] by simp
qed

lemma binade_bounds:
  assumes "x \<noteq> 0"
  shows "2 powi binade x \<le> \<bar>x\<bar>" and "\<bar>x\<bar> < 2 powi (binade x + 1)"
proof -
  have pos: "0 < \<bar>x\<bar>" using assms by simp
  have "2 powr real_of_int (binade x) \<le> \<bar>x\<bar> \<and> \<bar>x\<bar> < 2 powr (real_of_int (binade x) + 1)"
    using floor_log_eq_powr_iff[OF pos, of 2 "binade x"] by (simp add: binade_def)
  moreover have "(2::real) powr real_of_int (binade x) = 2 powi binade x"
    "(2::real) powr (real_of_int (binade x) + 1) = 2 powi (binade x + 1)"
    using powr_real_of_int'[of "2::real" "binade x"] powr_real_of_int'[of "2::real" "binade x + 1"]
    by simp_all
  ultimately show "2 powi binade x \<le> \<bar>x\<bar>" and "\<bar>x\<bar> < 2 powi (binade x + 1)" by simp_all
qed

lemma binade_minus [simp]: "binade (- x) = binade x"
  by (simp add: binade_def)

text \<open>The rounding of a number whose binade is known.\<close>

lemma round_double_eval:
  assumes "2 powi k \<le> \<bar>x\<bar>" and "\<bar>x\<bar> < 2 powi (k + 1)"
  shows "round_double x = of_int (round_half_even (x / 2 powi (k - 52))) * 2 powi (k - 52)"
proof -
  have "0 < (2::real) powi k" by simp
  with assms(1) have "0 < \<bar>x\<bar>" by linarith
  then have "x \<noteq> 0" by simp
  then show ?thesis by (simp add: round_double_def binade_eqI[OF assms])
qed

lemma round_double_0 [simp]: "round_double 0 = 0"
  by (simp add: round_double_def)

lemma round_double_minus: "round_double (- x) = - round_double x"
  by (simp add: round_double_def rhe_minus)

lemma powi_ratio: "(2::real) powi a / 2 powi (a - 52) = 2 ^ 52"
proof -
  have "(2::real) powi a = 2 powi (a - 52) * 2 powi 52"
    using power_int_add[of "2::real" "a - 52" 52] by simp
  then show ?thesis by simp
qed

lemma powi_ratio_Suc: "(2::real) powi (a + 1) / 2 powi (a - 52) = 2 ^ 53"
proof -
  have "(2::real) powi (a + 1) = 2 powi (a - 52) * 2 powi 53"
    using power_int_add[of "2::real" "a - 52" 53] by (simp add: add.commute)
  then show ?thesis by simp
qed

text \<open>The significand of a positive number and of its rounding.\<close>

lemma significand_bounds:
  assumes "0 < x"
  shows "2 ^ 52 \<le> x / 2 powi (binade x - 52)" and "x / 2 powi (binade x - 52) < 2 ^ 53"
proof -
  have x: "x \<noteq> 0" "\<bar>x\<bar> = x" using assms by simp_all
  have p: "0 < (2::real) powi (binade x - 52)" by simp
  have "2 powi binade x / 2 powi (binade x - 52) \<le> x / 2 powi (binade x - 52)"
    using binade_bounds(1)[OF x(1)] p by (simp add: x(2) divide_right_mono)
  then show "2 ^ 52 \<le> x / 2 powi (binade x - 52)" by (simp only: powi_ratio)
  have "x / 2 powi (binade x - 52) < 2 powi (binade x + 1) / 2 powi (binade x - 52)"
    using binade_bounds(2)[OF x(1)] p by (simp add: x(2) divide_strict_right_mono)
  then show "x / 2 powi (binade x - 52) < 2 ^ 53" by (simp only: powi_ratio_Suc)
qed

lemma rounded_significand:
  assumes "0 < x"
  shows "2 ^ 52 \<le> round_half_even (x / 2 powi (binade x - 52))"
    and "round_half_even (x / 2 powi (binade x - 52)) \<le> 2 ^ 53"
proof -
  have "of_int (2 ^ 52) \<le> x / 2 powi (binade x - 52)"
    using significand_bounds(1)[OF assms] by simp
  then show "2 ^ 52 \<le> round_half_even (x / 2 powi (binade x - 52))" by (rule rhe_ge)
  have "x / 2 powi (binade x - 52) \<le> of_int (2 ^ 53)"
    using significand_bounds(2)[OF assms] by simp
  then show "round_half_even (x / 2 powi (binade x - 52)) \<le> 2 ^ 53" by (rule rhe_le)
qed

lemma round_double_pos_bounds:
  assumes "0 < x"
  shows "2 powi binade x \<le> round_double x" and "round_double x \<le> 2 powi (binade x + 1)"
proof -
  let ?u = "(2::real) powi (binade x - 52)"
  let ?r = "round_half_even (x / ?u)"
  have u: "0 < ?u" by simp
  have rd: "round_double x = of_int ?r * ?u" using assms by (simp add: round_double_def)
  have lo: "(2::real) ^ 52 \<le> of_int ?r"
    using rounded_significand(1)[OF assms] by (metis of_int_le_iff of_int_numeral of_int_power)
  have hi: "of_int ?r \<le> (2::real) ^ 53"
    using rounded_significand(2)[OF assms] by (metis of_int_le_iff of_int_numeral of_int_power)
  have a: "(2::real) powi binade x = 2 ^ 52 * ?u"
    using powi_ratio[of "binade x"] u by (simp add: field_simps)
  have b: "(2::real) powi (binade x + 1) = 2 ^ 53 * ?u"
    using powi_ratio_Suc[of "binade x"] u by (simp add: field_simps)
  show "2 powi binade x \<le> round_double x"
    unfolding rd a using lo u by (intro mult_right_mono) simp_all
  show "round_double x \<le> 2 powi (binade x + 1)"
    unfolding rd b using hi u by (intro mult_right_mono) simp_all
qed

lemma round_double_pos: "0 < x \<Longrightarrow> 0 < round_double x"
  using round_double_pos_bounds(1)[of x] zero_less_power_int[of "2::real" "binade x"]
  by (smt (verit))

text \<open>A double is its own rounding.\<close>

lemma round_double_fixed:
  assumes "2 ^ 52 \<le> m" and "m < 2 ^ 53"
  shows "round_double (of_int m * 2 powi k) = of_int m * 2 powi k"
proof -
  let ?x = "of_int m * (2::real) powi k"
  have u: "0 < (2::real) powi k" by simp
  have m0: "0 < m" using assms(1) by (smt (verit) zero_less_power)
  then have x0: "0 < ?x" using u by simp
  have lo: "(2::real) ^ 52 \<le> of_int m"
    using assms(1) by (metis of_int_le_iff of_int_numeral of_int_power)
  have hi: "of_int m < (2::real) ^ 53"
    using assms(2) by (metis of_int_less_iff of_int_numeral of_int_power)
  have a: "(2::real) powi (k + 52) = 2 ^ 52 * 2 powi k"
    using power_int_add[of "2::real" k 52] by (simp add: mult.commute)
  have b: "(2::real) powi (k + 52 + 1) = 2 ^ 53 * 2 powi k"
    using power_int_add[of "2::real" k 53] by (simp add: mult.commute add.commute add.left_commute)
  have "2 powi (k + 52) \<le> \<bar>?x\<bar>"
    unfolding a abs_of_pos[OF x0] using lo u by (intro mult_right_mono) simp_all
  moreover have "\<bar>?x\<bar> < 2 powi (k + 52 + 1)"
    unfolding b abs_of_pos[OF x0] using hi u by (intro mult_strict_right_mono) simp_all
  ultimately have "round_double ?x =
      of_int (round_half_even (?x / 2 powi (k + 52 - 52))) * 2 powi (k + 52 - 52)"
    by (rule round_double_eval)
  then show ?thesis by simp
qed

lemma round_double_idem_pos:
  assumes "0 < x"
  shows "round_double (round_double x) = round_double x"
proof -
  let ?u = "(2::real) powi (binade x - 52)"
  let ?r = "round_half_even (x / ?u)"
  have rd: "round_double x = of_int ?r * ?u" using assms by (simp add: round_double_def)
  show ?thesis
  proof (cases "?r < 2 ^ 53")
    case True
    show ?thesis unfolding rd
      by (rule round_double_fixed[OF rounded_significand(1)[OF assms] True])
  next
    case False
    with rounded_significand(2)[OF assms] have r: "?r = 2 ^ 53" by simp
    have "of_int ?r * ?u = of_int (2 ^ 52) * 2 powi (binade x - 52 + 1)"
      unfolding r using power_int_add[of "2::real" "binade x - 52" 1] by simp
    moreover have "round_double (of_int (2 ^ 52) * 2 powi (binade x - 52 + 1)) =
        of_int (2 ^ 52) * 2 powi (binade x - 52 + 1)"
      by (rule round_double_fixed) simp_all
    ultimately show ?thesis unfolding rd by simp
  qed
qed

lemma round_double_idem: "round_double (round_double x) = round_double x"
proof -
  consider "0 < x" | "x = 0" | "0 < - x" by linarith
  then show ?thesis
  proof cases
    case 1
    then show ?thesis by (rule round_double_idem_pos)
  next
    case 2
    then show ?thesis by simp
  next
    case 3
    from round_double_idem_pos[OF 3] show ?thesis
      by (simp add: round_double_minus)
  qed
qed

lemma binade_mono:
  assumes "0 < x" and "x \<le> y"
  shows "binade x \<le> binade y"
proof -
  have "log 2 \<bar>x\<bar> \<le> log 2 \<bar>y\<bar>" using assms by simp
  then show ?thesis unfolding binade_def by (rule floor_mono)
qed

lemma round_double_mono_pos:
  assumes "0 < x" and "x \<le> y"
  shows "round_double x \<le> round_double y"
proof -
  have y: "0 < y" using assms by linarith
  show ?thesis
  proof (cases "binade x = binade y")
    case True
    let ?u = "(2::real) powi (binade y - 52)"
    have u: "0 < ?u" by simp
    have "x / ?u \<le> y / ?u" using assms(2) u by (simp add: divide_right_mono)
    then have "round_half_even (x / ?u) \<le> round_half_even (y / ?u)" by (rule rhe_mono)
    then have "of_int (round_half_even (x / ?u)) * ?u \<le> of_int (round_half_even (y / ?u)) * ?u"
      using u by (intro mult_right_mono) simp_all
    then show ?thesis using assms(1) y True by (simp add: round_double_def)
  next
    case False
    with binade_mono[OF assms] have "binade x + 1 \<le> binade y" by simp
    then have "(2::real) powi (binade x + 1) \<le> 2 powi binade y"
      by (intro power_int_increasing) simp_all
    with round_double_pos_bounds(2)[OF assms(1)] round_double_pos_bounds(1)[OF y]
    show ?thesis by linarith
  qed
qed

lemma round_double_mono:
  assumes "x \<le> y"
  shows "round_double x \<le> round_double y"
proof -
  consider "0 < x" | "x = 0" "y = 0" | "x = 0" "0 < y" | "x < 0" "0 \<le> y" | "x < 0" "y < 0"
    using assms by linarith
  then show ?thesis
  proof cases
    case 1
    then show ?thesis using assms by (rule round_double_mono_pos)
  next
    case 2
    then show ?thesis by simp
  next
    case 3
    then show ?thesis using round_double_pos[of y] by simp
  next
    case 4
    then have "0 < round_double (- x)" by (intro round_double_pos) simp
    then have "round_double x < 0" by (simp add: round_double_minus)
    moreover have "0 \<le> round_double y"
      using 4(2) round_double_pos[of y] by (cases "y = 0") (simp_all add: less_le)
    ultimately show ?thesis by linarith
  next
    case 5
    then have "round_double (- y) \<le> round_double (- x)"
      using assms by (intro round_double_mono_pos) simp_all
    then show ?thesis by (simp add: round_double_minus)
  qed
qed

lemma round_double_1 [simp]: "round_double 1 = 1"
  using round_double_fixed[of "2 ^ 52" "- 52"] by simp

lemma is_rounding_round_double: "is_rounding round_double"
  unfolding is_rounding_def
  using round_double_0 round_double_minus round_double_idem round_double_mono by blast

lemma is_rounding_exact: "is_rounding (\<lambda>x. x)"
  by (simp add: is_rounding_def)

text \<open>The roundings of the scaling of the runtimes 80 and 106.\<close>

lemma rd_26: "round_double (1 / 26) = 5542891849071380 / 2 ^ 57"
proof -
  have "round_double (1 / 26) =
      of_int (round_half_even ((1 / 26) / 2 powi (- 5 - 52))) * 2 powi (- 5 - 52)"
    by (rule round_double_eval) simp_all
  moreover have "round_half_even ((1 / 26) / 2 powi (- 5 - 52)) = 5542891849071380"
    by (simp add: round_half_even_def)
  ultimately show ?thesis by simp
qed

lemma rd_106: "round_double (106 * (5542891849071380 / 2 ^ 57)) = 4590207312512237 / 2 ^ 50"
proof -
  have "round_double (106 * (5542891849071380 / 2 ^ 57)) =
      of_int (round_half_even ((106 * (5542891849071380 / 2 ^ 57)) / 2 powi (2 - 52))) *
      2 powi (2 - 52)"
    by (rule round_double_eval) simp_all
  moreover have
    "round_half_even ((106 * (5542891849071380 / 2 ^ 57)) / 2 powi (2 - 52)) = 4590207312512237"
    by (simp add: round_half_even_def)
  ultimately show ?thesis by simp
qed

lemma rd_80: "round_double (80 * (5542891849071380 / 2 ^ 57)) = 6928614811339225 / 2 ^ 51"
proof -
  have "round_double (80 * (5542891849071380 / 2 ^ 57)) =
      of_int (round_half_even ((80 * (5542891849071380 / 2 ^ 57)) / 2 powi (1 - 52))) *
      2 powi (1 - 52)"
    by (rule round_double_eval) simp_all
  moreover have
    "round_half_even ((80 * (5542891849071380 / 2 ^ 57)) / 2 powi (1 - 52)) = 6928614811339225"
    by (simp add: round_half_even_def)
  ultimately show ?thesis by simp
qed

lemma rd_sum:
  "round_double (4590207312512237 / 2 ^ 50 - 6928614811339225 / 2 ^ 51) = 1 + 1 / 2 ^ 51"
proof -
  have "round_double (4590207312512237 / 2 ^ 50 - 6928614811339225 / 2 ^ 51) =
      of_int (round_half_even
        ((4590207312512237 / 2 ^ 50 - 6928614811339225 / 2 ^ 51) / 2 powi (0 - 52))) *
      2 powi (0 - 52)"
    by (rule round_double_eval) simp_all
  moreover have
    "round_half_even ((4590207312512237 / 2 ^ 50 - 6928614811339225 / 2 ^ 51) / 2 powi (0 - 52))
       = 4503599627370498"
    by (simp add: round_half_even_def)
  ultimately show ?thesis by simp
qed

lemma rd_26r: "round_double 26 = 26"
  using round_double_fixed[of "13 * 2 ^ 49" "- 48"] by simp


subsection \<open>The title index and sizes\<close>

lemma index_titles_None:
  "index_titles i ms m t = None \<longleftrightarrow> m t = None \<and> t \<notin> title ` set ms"
  by (induction ms arbitrary: i m) auto

lemma index_titles_Some:
  "index_titles i ms m t = Some j \<Longrightarrow>
     (m t = Some j \<and> t \<notin> title ` set ms) \<or>
     (i \<le> j \<and> j - i < length ms \<and> title (ms ! (j - i)) = t \<and>
      (\<forall>k<length ms. title (ms ! k) = t \<longrightarrow> k \<le> j - i))"
proof (induction ms arbitrary: i m)
  case Nil
  then show ?case by simp
next
  case (Cons x xs)
  from Cons.prems have "index_titles (Suc i) xs (m(title x \<mapsto> i)) t = Some j" by simp
  from Cons.IH[OF this] show ?case
  proof
    assume a: "(m(title x \<mapsto> i)) t = Some j \<and> t \<notin> title ` set xs"
    show ?thesis
    proof (cases "title x = t")
      case True
      with a have "j = i" by simp
      moreover have "\<forall>k<length (x # xs). title ((x # xs) ! k) = t \<longrightarrow> k \<le> 0"
      proof (intro allI impI)
        fix k assume "k < length (x # xs)" "title ((x # xs) ! k) = t"
        with a show "k \<le> 0" by (cases k) auto
      qed
      ultimately show ?thesis using True by simp
    next
      case False
      with a show ?thesis by auto
    qed
  next
    assume b: "Suc i \<le> j \<and> j - Suc i < length xs \<and> title (xs ! (j - Suc i)) = t \<and>
      (\<forall>k<length xs. title (xs ! k) = t \<longrightarrow> k \<le> j - Suc i)"
    then have e: "j - i = Suc (j - Suc i)" by arith
    have "\<forall>k<length (x # xs). title ((x # xs) ! k) = t \<longrightarrow> k \<le> j - i"
    proof (intro allI impI)
      fix k assume "k < length (x # xs)" "title ((x # xs) ! k) = t"
      with b e show "k \<le> j - i" by (cases k) auto
    qed
    with b e show ?thesis by auto
  qed
qed

lemma length_fit_transform: "fit_transform e texts = Inr X \<Longrightarrow> length X = length texts"
  by (auto simp: fit_transform_def Let_def split: if_splits)

lemma length_minmax: "minmax_fit_transform f rows = Inr S \<Longrightarrow> length S = length rows"
  by (auto simp: minmax_fit_transform_def split: if_splits)

lemma feature_engineering_Inr:
  assumes "feature_engineering e ms = Inr M"
  obtains G K C S where
    "fit_transform e (map genres ms) = Inr G"
    "fit_transform e (map keywords ms) = Inr K"
    "fit_transform e (map cast ms) = Inr C"
    "minmax_fit_transform (fl e) (map (continuous_row (current_year e)) ms) = Inr S"
    "M = hstack2 (hstack2 (hstack2 G K) C) S"
  using assms
  by (auto simp: feature_engineering_def Let_def split: sum.splits)

lemma length_feature_engineering:
  "feature_engineering e ms = Inr M \<Longrightarrow> length M = length ms"
  by (erule feature_engineering_Inr) (auto dest!: length_fit_transform length_minmax)

lemma length_argsort: "length (argsort e scores) = length scores"
  by (simp add: argsort_def)

lemma set_argsort: "set (argsort e scores) = {0..<length scores}"
  by (simp add: argsort_def)

lemma distinct_argsort: "distinct (argsort e scores)"
  by (simp add: argsort_def)

lemma length_most_similar_indices:
  "length (most_similar_indices e scores) = min 5 (length scores - 1)"
  by (simp add: most_similar_indices_def length_argsort)

lemma set_most_similar_indices:
  "set (most_similar_indices e scores) \<subseteq> {0..<length scores}"
proof -
  have "set (most_similar_indices e scores) \<subseteq> set (rev (argsort e scores))"
    unfolding most_similar_indices_def
    by (meson set_take_subset set_drop_subset subset_trans)
  then show ?thesis by (simp add: set_argsort)
qed

lemma length_cosine_similarity: "length (cosine_similarity x M) = length M"
  by (simp add: cosine_similarity_def)

subsection \<open>Min-max scaling\<close>

lemma list_min_eq_Min: "col \<noteq> [] \<Longrightarrow> list_min col = Min (set col)"
proof (cases col)
  case (Cons a l)
  then show ?thesis using Min.set_eq_fold[of a l] by simp
qed simp

lemma list_max_eq_Max: "col \<noteq> [] \<Longrightarrow> list_max col = Max (set col)"
proof (cases col)
  case (Cons a l)
  then show ?thesis using Max.set_eq_fold[of a l] by simp
qed simp

lemma list_min_le: "v \<in> set col \<Longrightarrow> list_min col \<le> v"
  by (cases "col = []") (simp_all add: list_min_eq_Min)

lemma list_max_ge: "v \<in> set col \<Longrightarrow> v \<le> list_max col"
  by (cases "col = []") (simp_all add: list_max_eq_Max)

lemma finfo_eps_bounds: "0 < 10 * finfo_eps" "10 * finfo_eps \<le> 1"
  by (simp_all add: finfo_eps_def)

lemma scale_of_nonneg:
  assumes "is_rounding f"
  shows "0 \<le> scale_of f col"
proof -
  let ?d = "if data_range f col < 10 * finfo_eps then 1 else data_range f col"
  have "0 < ?d" using finfo_eps_bounds(1) by (auto simp: not_less intro: less_le_trans)
  then have "0 \<le> 1 / ?d" by simp
  then have "f 0 \<le> f (1 / ?d)" using assms unfolding is_rounding_def by blast
  then show ?thesis using assms by (simp add: scale_of_def is_rounding_def)
qed

lemma min_of_eq:
  assumes "is_rounding f"
  shows "min_of f col = - f (list_min col * scale_of f col)"
proof -
  have "f (0 - f (list_min col * scale_of f col)) = f (- f (list_min col * scale_of f col))"
    by simp
  also have "\<dots> = - f (f (list_min col * scale_of f col))"
    using assms unfolding is_rounding_def by blast
  also have "\<dots> = - f (list_min col * scale_of f col)"
    using assms unfolding is_rounding_def by simp
  finally show ?thesis by (simp add: min_of_def)
qed

text \<open>Under any rounding no scaled value is below 0, and a constant column is scaled
  to 0.\<close>

lemma scaled_nonneg:
  assumes "is_rounding f" and "v \<in> set col"
  shows "0 \<le> f (f (v * scale_of f col) + min_of f col)"
proof -
  have "list_min col * scale_of f col \<le> v * scale_of f col"
    using list_min_le[OF assms(2)] scale_of_nonneg[OF assms(1)] by (rule mult_right_mono)
  then have "f (list_min col * scale_of f col) \<le> f (v * scale_of f col)"
    using assms(1) unfolding is_rounding_def by blast
  then have "0 \<le> f (v * scale_of f col) + min_of f col"
    by (simp add: min_of_eq[OF assms(1)])
  then have "f 0 \<le> f (f (v * scale_of f col) + min_of f col)"
    using assms(1) unfolding is_rounding_def by blast
  then show ?thesis using assms(1) by (simp add: is_rounding_def)
qed

lemma scaled_constant:
  assumes "is_rounding f" and "v \<in> set col" and "list_max col = list_min col"
  shows "f (f (v * scale_of f col) + min_of f col) = 0"
proof -
  have "list_min col \<le> v" "v \<le> list_max col"
    using assms(2) by (rule list_min_le, rule list_max_ge)
  then have "v = list_min col" using assms(3) by simp
  then have "f (v * scale_of f col) + min_of f col = 0"
    by (simp add: min_of_eq[OF assms(1)])
  then show ?thesis using assms(1) by (simp add: is_rounding_def)
qed

text \<open>Without rounding no scaled value is above 1.\<close>

lemma scaled_le_one_exact:
  assumes "v \<in> set col"
  shows "v * scale_of (\<lambda>x. x) col + min_of (\<lambda>x. x) col \<le> 1"
proof -
  let ?r = "list_max col - list_min col"
  have eq: "v * scale_of (\<lambda>x. x) col + min_of (\<lambda>x. x) col =
      (v - list_min col) * scale_of (\<lambda>x. x) col"
    by (simp add: min_of_def algebra_simps)
  have hi: "v - list_min col \<le> ?r" using list_max_ge[OF assms] by simp
  show ?thesis
  proof (cases "?r < 10 * finfo_eps")
    case True
    then have "v - list_min col \<le> 1" using hi finfo_eps_bounds(2) by linarith
    then show ?thesis using True unfolding eq by (simp add: scale_of_def data_range_def)
  next
    case False
    then have "0 < ?r" using finfo_eps_bounds(1) by linarith
    then show ?thesis using hi False unfolding eq by (simp add: scale_of_def data_range_def)
  qed
qed

lemma nth_scale_row:
  "j < length r \<Longrightarrow>
   scale_row f rows r ! j = f (f (r ! j * scale_of f (column rows j)) + min_of f (column rows j))"
  by (simp add: scale_row_def)

lemma nth_in_column: "i < length rows \<Longrightarrow> rows ! i ! j \<in> set (column rows j)"
  by (auto simp: column_def intro!: image_eqI[where x="rows ! i"])

lemma minmax_nth:
  assumes "minmax_fit_transform f rows = Inr S" "i < length rows" "j < length (rows ! i)"
  shows "S ! i ! j =
      f (f (rows ! i ! j * scale_of f (column rows j)) + min_of f (column rows j))"
    and "length (S ! i) = length (rows ! i)"
proof -
  from assms(1) have S: "S = map (scale_row f rows) rows"
    by (auto simp: minmax_fit_transform_def split: if_splits)
  show "S ! i ! j =
      f (f (rows ! i ! j * scale_of f (column rows j)) + min_of f (column rows j))"
    using assms(2,3) by (simp add: S nth_scale_row)
  show "length (S ! i) = length (rows ! i)"
    using assms(2) by (simp add: S scale_row_def)
qed

subsection \<open>Cosine similarity\<close>

lemma dot_Nil [simp]: "dot [] ys = 0" "dot xs [] = 0"
  by (simp_all add: dot_def)

lemma dot_Cons [simp]: "dot (x # xs) (y # ys) = x * y + dot xs ys"
  by (simp add: dot_def)

lemma dot_self_nonneg: "0 \<le> dot xs xs"
  by (induction xs) simp_all


lemma l2_norm_Cons: "l2_norm (x # xs) = sqrt (x\<^sup>2 + (l2_norm xs)\<^sup>2)"
  by (simp add: l2_norm_def dot_self_nonneg power2_eq_square)

lemma l2_norm_nonneg: "0 \<le> l2_norm xs"
  by (simp add: l2_norm_def dot_self_nonneg)

lemma l2_norm_Nil [simp]: "l2_norm [] = 0"
  by (simp add: l2_norm_def)


lemma dot_map_div_left: "dot (map (\<lambda>x. x / c) xs) ys = dot xs ys / c"
  by (induction xs ys rule: list_induct2') (simp_all add: add_divide_distrib)

lemma dot_map_div_right: "dot xs (map (\<lambda>x. x / c) ys) = dot xs ys / c"
  by (induction xs ys rule: list_induct2') (simp_all add: add_divide_distrib)


lemma l2_norm_zero_iff: "l2_norm xs = 0 \<longleftrightarrow> (\<forall>x\<in>set xs. x = 0)"
proof (induction xs)
  case Nil
  then show ?case by simp
next
  case (Cons x xs)
  have "l2_norm (x # xs) = 0 \<longleftrightarrow> x\<^sup>2 + (l2_norm xs)\<^sup>2 = 0"
    by (simp add: l2_norm_Cons)
  also have "\<dots> \<longleftrightarrow> x = 0 \<and> l2_norm xs = 0"
    by (simp add: sum_power2_eq_zero_iff)
  finally show ?case using Cons by simp
qed

lemma sum_squares_dot: "sum_list (map (\<lambda>v. v * v) xs) = dot xs xs"
  by (induction xs) simp_all



lemma normalize_big:
  "10 * finfo_eps \<le> l2_norm xs \<Longrightarrow> normalize xs = map (\<lambda>x. x / l2_norm xs) xs"
  by (simp add: normalize_def)







subsection \<open>Ranking\<close>




text \<open>
  Every ascending order of the rows is the result of \<open>argsort\<close> for some \<open>tie_rank\<close>: the
  one that ranks each row by its position in that order.
\<close>

lemma position_nth:
  assumes "distinct p" and "i < length p"
  shows "position p (p ! i) = i"
proof -
  have "takeWhile (\<lambda>x. x \<noteq> p ! i) p = take i p"
  proof (rule takeWhile_eq_take_P_nth)
    fix k assume "k < i" "k < length p"
    then show "p ! k \<noteq> p ! i" using assms by (simp add: nth_eq_iff_index_eq)
  next
    show "\<not> p ! i \<noteq> p ! i" by simp
  qed
  then show ?thesis using assms(2) by (simp add: position_def)
qed

lemma map_position: "distinct p \<Longrightarrow> map (position p) p = [0..<length p]"
  by (rule nth_equalityI) (simp_all add: position_nth)

lemma inj_on_position: "distinct p \<Longrightarrow> inj_on (position p) (set p)"
proof (rule inj_onI)
  fix a b assume d: "distinct p" and a: "a \<in> set p" and b: "b \<in> set p"
    and eq: "position p a = position p b"
  from a b obtain i j where i: "i < length p" "p ! i = a" and j: "j < length p" "p ! j = b"
    by (auto simp: in_set_conv_nth)
  with eq position_nth[OF d] have "i = j" by metis
  with i j show "a = b" by simp
qed

lemma argsort_any_order:
  assumes "distinct p" and "set p = {0..<length scores}"
    and "sorted (map (\<lambda>i. scores ! i) p)" and "tie_rank e scores = position p"
  shows "argsort e scores = p"
proof -
  let ?q = "sort_key (position p) [0..<length scores]"
  have sq: "set ?q = set p" using assms(2) by simp
  have inj: "inj_on (position p) (set ?q \<union> set p)"
    unfolding sq using inj_on_position[OF assms(1)] by simp
  have "distinct (map (position p) ?q)"
    using inj by (simp add: distinct_map inj_on_Un)
  moreover have "sorted (map (position p) ?q)" by (rule sorted_sort_key)
  moreover have "sorted (map (position p) p)" "distinct (map (position p) p)"
    by (simp_all add: map_position[OF assms(1)])
  ultimately have "?q = p"
    using inj sq by (intro map_sorted_distinct_set_unique[of "position p"]) simp_all
  then show ?thesis
    unfolding argsort_def assms(4) using assms(3) by (simp add: sort_key_id_if_sorted)
qed

text \<open>
  Whatever order a sort gives three rows, the slice drops one row only, so of the rows 1
  and 2 at least one is kept.
\<close>

lemma one_of_two_kept:
  assumes "distinct order" and "set order = {0, 1, 2::nat}"
  shows "1 \<in> set (take 5 (drop 1 (rev order))) \<or> 2 \<in> set (take 5 (drop 1 (rev order)))"
proof -
  from assms have "length order = 3"
    using distinct_card[of order] by simp
  then have len: "length (rev order) = 3" by simp
  then obtain a b c where abc: "rev order = [a, b, c]"
    by (auto simp: length_Suc_conv numeral_3_eq_3)
  from assms(1) have d: "distinct [a, b, c]" using abc by (metis distinct_rev)
  from assms(2) have s: "set [a, b, c] = {0, 1, 2}" using abc by (metis set_rev)
  have "1 \<in> set [a, b, c]" "2 \<in> set [a, b, c]" unfolding s by simp_all
  with d have "1 \<in> {b, c} \<or> 2 \<in> {b, c}" by auto
  then show ?thesis by (simp add: abc)
qed

subsection \<open>States, tokens and rows\<close>

lemma consistent_init: "consistent e (init ms)"
  by (simp add: consistent_def init_def)

lemma calculate_similarity_cases:
  "calculate_similarity e r t =
     (case (case feature_matrix r of None \<Rightarrow> feature_engineering e (movies r) | Some M \<Rightarrow> Inr M) of
        Inl err \<Rightarrow> (Inl err, r)
      | Inr M \<Rightarrow>
          (case movie_indices r t of
             None \<Rightarrow> Inl (MovieNotFound t)
           | Some idx \<Rightarrow>
               Inr (map (\<lambda>i. title (movies r ! i))
                      (most_similar_indices e (cosine_similarity (M ! idx) M))),
           r\<lparr>feature_matrix := Some M\<rparr>))"
  by (simp add: calculate_similarity_def Let_def split: sum.split option.split)

lemma consistent_matrix:
  assumes "consistent e r"
    and "(case feature_matrix r of None \<Rightarrow> feature_engineering e (movies r) | Some M \<Rightarrow> Inr M) = Inr M"
  shows "feature_engineering e (movies r) = Inr M"
  using assms by (auto simp: consistent_def split: option.splits)

lemma consistent_calculate_similarity:
  assumes "consistent e r"
  shows "consistent e (snd (calculate_similarity e r t))"
proof (cases "case feature_matrix r of None \<Rightarrow> feature_engineering e (movies r) | Some M \<Rightarrow> Inr M")
  case (Inl err)
  then show ?thesis using assms by (simp add: calculate_similarity_cases)
next
  case (Inr M)
  from consistent_matrix[OF assms Inr] show ?thesis
    using assms Inr by (simp add: calculate_similarity_cases consistent_def)
qed

lemma calculate_similarity_init:
  assumes "feature_engineering e ms = Inr M"
  shows "calculate_similarity e (init ms) t =
     (case index_titles 0 ms Map.empty t of
        None \<Rightarrow> Inl (MovieNotFound t)
      | Some idx \<Rightarrow>
          Inr (map (\<lambda>i. title (ms ! i)) (most_similar_indices e (cosine_similarity (M ! idx) M))),
      (init ms)\<lparr>feature_matrix := Some M\<rparr>)"
  using assms by (simp add: calculate_similarity_def init_def Let_def split: option.split)

lemma calculate_similarity_build_error:
  assumes "feature_matrix r = None" and "feature_engineering e (movies r) = Inl err"
  shows "fst (calculate_similarity e r t) = Inl err"
  using assms by (simp add: calculate_similarity_cases)

lemma length_recommendations:
  assumes "consistent e r" and "fst (calculate_similarity e r t) = Inr recs"
  shows "length recs = min 5 (length (movies r) - 1)"
proof -
  from assms(2) obtain M where
    M: "(case feature_matrix r of None \<Rightarrow> feature_engineering e (movies r) | Some M \<Rightarrow> Inr M) = Inr M"
    by (auto simp: calculate_similarity_cases split: sum.splits)
  from consistent_matrix[OF assms(1) M] have "length M = length (movies r)"
    by (rule length_feature_engineering)
  moreover from assms(2) M obtain idx where
    "recs = map (\<lambda>i. title (movies r ! i))
              (most_similar_indices e (cosine_similarity (M ! idx) M))"
    by (auto simp: calculate_similarity_cases split: option.splits)
  ultimately show ?thesis
    by (simp add: length_most_similar_indices length_cosine_similarity)
qed

lemma movies_init [simp]: "movies (init ms) = ms"
  and feature_matrix_init [simp]: "feature_matrix (init ms) = None"
  and movie_indices_init: "movie_indices (init ms) = index_titles 0 ms Map.empty"
  by (simp_all add: init_def)

lemma index_titles_last:
  assumes "k < length ms" and "title (ms ! k) = t"
  shows "\<exists>j. index_titles 0 ms Map.empty t = Some j \<and> j < length ms \<and> title (ms ! j) = t \<and>
           (\<forall>i<length ms. title (ms ! i) = t \<longrightarrow> i \<le> j)"
proof -
  from assms(1) have "ms ! k \<in> set ms" by (rule nth_mem)
  then have "title (ms ! k) \<in> title ` set ms" by (rule imageI)
  with assms(2) have "t \<in> title ` set ms" by simp
  then have "index_titles 0 ms Map.empty t \<noteq> None"
    by (simp add: index_titles_None)
  then obtain j where j: "index_titles 0 ms Map.empty t = Some j" by blast
  from index_titles_Some[OF j] have
    "j < length ms \<and> title (ms ! j) = t \<and> (\<forall>i<length ms. title (ms ! i) = t \<longrightarrow> i \<le> j)"
    by simp
  with j show ?thesis by blast
qed

lemma split_bar_no_bar: "CHR ''|'' \<notin> set u \<Longrightarrow> split_bar u = [u]"
  by (induction u) (auto split: list.splits)

lemma split_bar_append:
  "CHR ''|'' \<notin> set u \<Longrightarrow> split_bar (u @ CHR ''|'' # v) = u # split_bar v"
  by (induction u) (auto split: list.splits)

lemma feature_rows:
  assumes "feature_engineering e ms = Inr M"
  shows "\<exists>G K C S.
     fit_transform e (map genres ms) = Inr G \<and>
     fit_transform e (map keywords ms) = Inr K \<and>
     fit_transform e (map cast ms) = Inr C \<and>
     minmax_fit_transform (fl e) (map (continuous_row (current_year e)) ms) = Inr S \<and>
     length M = length ms \<and>
     (\<forall>i<length ms. M ! i = G ! i @ K ! i @ C ! i @ S ! i)"
proof -
  from assms obtain G K C S where
    G: "fit_transform e (map genres ms) = Inr G" and
    K: "fit_transform e (map keywords ms) = Inr K" and
    C: "fit_transform e (map cast ms) = Inr C" and
    S: "minmax_fit_transform (fl e) (map (continuous_row (current_year e)) ms) = Inr S" and
    M: "M = hstack2 (hstack2 (hstack2 G K) C) S"
    by (rule feature_engineering_Inr)
  have len: "length G = length ms" "length K = length ms" "length C = length ms"
    "length S = length ms"
    using length_fit_transform[OF G] length_fit_transform[OF K] length_fit_transform[OF C]
      length_minmax[OF S] by simp_all
  have "M ! i = G ! i @ K ! i @ C ! i @ S ! i" if "i < length ms" for i
    unfolding M using that len by simp
  with G K C S len M show ?thesis
    by (intro exI conjI) (assumption | simp)+
qed

text \<open>The matrix of \<open>fit_transform\<close> is the TF-IDF matrix of the token lists.\<close>

lemma doc_freq_card: "doc_freq docs t = card {k. k < length docs \<and> t \<in> set (docs ! k)}"
  by (simp add: doc_freq_def length_filter_conv_card)

lemma count_list_filter: "count_list d t = length (filter (\<lambda>s. s = t) d)"
  by (induction d) simp_all

lemma raw_weight: "real (count_list d t) * idf docs t = tfidf_weight docs d t"
  by (simp add: tfidf_weight_def idf_def doc_freq_card count_list_filter)

lemma normalize_csr_row:
  shows "\<exists>c>0. \<forall>j<length w. normalize_csr w ! j = c * w ! j"
    and "sum_list (map (\<lambda>v. v * v) (normalize_csr w)) = 1 \<or> set (normalize_csr w) \<subseteq> {0}"
proof -
  show "\<exists>c>0. \<forall>j<length w. normalize_csr w ! j = c * w ! j"
  proof (cases "l2_norm w = 0")
    case True
    then have "\<forall>j<length w. normalize_csr w ! j = 1 * w ! j" by (simp add: normalize_csr_def)
    then show ?thesis by (intro exI[of _ "1::real"]) simp
  next
    case False
    then have pos: "0 < 1 / l2_norm w" using l2_norm_nonneg[of w] by (simp add: less_le)
    have "\<forall>j<length w. normalize_csr w ! j = (1 / l2_norm w) * w ! j"
      using False by (simp add: normalize_csr_def)
    with pos show ?thesis by blast
  qed
  show "sum_list (map (\<lambda>v. v * v) (normalize_csr w)) = 1 \<or> set (normalize_csr w) \<subseteq> {0}"
  proof (cases "l2_norm w = 0")
    case True
    then show ?thesis by (auto simp: normalize_csr_def l2_norm_zero_iff)
  next
    case False
    have "dot w w = l2_norm w * l2_norm w" by (simp add: l2_norm_def dot_self_nonneg)
    then have "dot (map (\<lambda>x. x / l2_norm w) w) (map (\<lambda>x. x / l2_norm w) w) = 1"
      using False by (simp add: dot_map_div_left dot_map_div_right)
    then have "sum_list (map (\<lambda>v. v * v) (map (\<lambda>x. x / l2_norm w) w)) = 1"
      by (simp only: sum_squares_dot)
    moreover have "normalize_csr w = map (\<lambda>x. x / l2_norm w) w"
      using False by (simp add: normalize_csr_def)
    ultimately show ?thesis by (simp only: simp_thms)
  qed
qed

lemma fit_transform_tfidf:
  assumes "fit_transform e texts = Inr X"
  shows "tfidf_block (map (analyze e) texts) X"
proof -
  let ?docs = "map (analyze e) texts"
  let ?voc = "vocabulary ?docs"
  from assms have X: "X = map (tfidf_row ?docs ?voc) ?docs"
    by (auto simp: fit_transform_def Let_def split: if_splits)
  have voc: "sorted ?voc" "distinct ?voc" "set ?voc = (\<Union>d\<in>set ?docs. set d)"
    by (simp_all add: vocabulary_def)
  have row: "length (X ! i) = length ?voc \<and>
      (\<exists>c>0. \<forall>j<length ?voc. X ! i ! j = c * tfidf_weight ?docs (?docs ! i) (?voc ! j)) \<and>
      (sum_list (map (\<lambda>v. v * v) (X ! i)) = 1 \<or> set (X ! i) \<subseteq> {0})"
    if i: "i < length ?docs" for i
  proof -
    let ?w = "map (\<lambda>t. real (count_list (?docs ! i) t) * idf ?docs t) ?voc"
    have Xi: "X ! i = normalize_csr ?w" using i by (simp add: X tfidf_row_def)
    have lw: "length ?w = length ?voc" by simp
    have len: "length (normalize_csr ?w) = length ?voc" by (simp add: normalize_csr_def)
    from normalize_csr_row(1)[of ?w] obtain c where
      c: "0 < c" "\<forall>j<length ?w. normalize_csr ?w ! j = c * ?w ! j" by blast
    have "\<forall>j<length ?voc. normalize_csr ?w ! j = c * tfidf_weight ?docs (?docs ! i) (?voc ! j)"
      using c(2) by (simp add: raw_weight)
    with c(1) have "\<exists>c>0. \<forall>j<length ?voc.
        normalize_csr ?w ! j = c * tfidf_weight ?docs (?docs ! i) (?voc ! j)" by blast
    with len normalize_csr_row(2)[of ?w] show ?thesis unfolding Xi by blast
  qed
  have "length X = length ?docs" by (simp add: X)
  with voc row show ?thesis unfolding tfidf_block_def by blast
qed

subsection \<open>Evaluating the examples\<close>

lemma idf_pos: "0 < idf docs t"
proof -
  have "doc_freq docs t \<le> length docs" by (simp add: doc_freq_def)
  then have "1 \<le> (1 + real (length docs)) / (1 + real (doc_freq docs t))"
    by (simp add: field_simps)
  then have "0 \<le> ln ((1 + real (length docs)) / (1 + real (doc_freq docs t)))"
    by (rule ln_ge_zero)
  then show ?thesis unfolding idf_def by linarith
qed

lemma normalize_csr_unit:
  "0 < c \<Longrightarrow> normalize_csr [c, 0] = [1, 0]" "0 < c \<Longrightarrow> normalize_csr [0, c] = [0, 1]"
  "0 < c \<Longrightarrow> normalize_csr [c] = [1]" "normalize_csr [0, 0] = [0, 0]"
  by (simp_all add: normalize_csr_def l2_norm_def)

lemma analyze_example:
  "analyze example_env doc =
     filter (\<lambda>t. t \<notin> set [''a'', ''an'', ''and'', ''fire'', ''the'']) (split_bar (ascii_lower doc))"
  "analyze exact_env doc =
     filter (\<lambda>t. t \<notin> set [''a'', ''an'', ''and'', ''fire'', ''the'']) (split_bar (ascii_lower doc))"
  by (simp_all add: analyze_def example_env_def exact_env_def)

lemma fields3:
  "map genres [drama a, action b, action c] = [''Drama'', ''Action'', ''Action'']"
  "map keywords [drama a, action b, action c] = [''family'', ''space war'', ''space war'']"
  "map cast [drama a, action b, action c] = [''Ann Lee'', ''Bo Kim'', ''Bo Kim'']"
  by (simp_all add: drama_def action_def)

lemma analyze3:
  "map (analyze example_env) [''Drama'', ''Action'', ''Action''] =
     [[''drama''], [''action''], [''action'']]"
  "map (analyze example_env) [''family'', ''space war'', ''space war''] =
     [[''family''], [''space war''], [''space war'']]"
  "map (analyze example_env) [''Ann Lee'', ''Bo Kim'', ''Bo Kim''] =
     [[''ann lee''], [''bo kim''], [''bo kim'']]"
  unfolding analyze_example by code_simp+

lemma vocabulary3:
  "vocabulary [[''drama''], [''action''], [''action'']] = [''action'', ''drama'']"
  "vocabulary [[''family''], [''space war''], [''space war'']] = [''family'', ''space war'']"
  "vocabulary [[''ann lee''], [''bo kim''], [''bo kim'']] = [''ann lee'', ''bo kim'']"
  by code_simp+

lemma fit_transform3:
  "fit_transform example_env [''Drama'', ''Action'', ''Action''] =
     Inr [[0, 1], [1, 0], [1, 0]]"
  "fit_transform example_env [''family'', ''space war'', ''space war''] =
     Inr [[1, 0], [0, 1], [0, 1]]"
  "fit_transform example_env [''Ann Lee'', ''Bo Kim'', ''Bo Kim''] =
     Inr [[1, 0], [0, 1], [0, 1]]"
  unfolding fit_transform_def analyze3 vocabulary3 Let_def
  by (simp_all add: tfidf_row_def normalize_csr_unit idf_pos)

lemma fl_example [simp]: "fl example_env = round_double" "current_year example_env = 2024"
  "tie_rank example_env = (\<lambda>scores i. 0)"
  by (simp_all add: example_env_def)

lemma continuous3:
  "map (continuous_row 2024) [drama a, action b, action c] =
     [[24, 100, 5, 7, ln 11], [24, 100, 5, 7, ln 11], [24, 100, 5, 7, ln 11]]"
  by (simp add: continuous_row_def drama_def action_def)

lemma minmax3:
  "minmax_fit_transform round_double
     [[24, 100, 5, 7, ln 11], [24, 100, 5, 7, ln 11], [24, 100, 5, 7, ln 11]] =
   Inr [[0, 0, 0, 0, 0], [0, 0, 0, 0, 0], [0, 0, 0, 0, 0]]"
  by (simp add: minmax_fit_transform_def scale_row_def column_def scale_of_def min_of_def
      data_range_def finfo_eps_def upt_rec round_double_minus round_double_idem)

lemma feature_engineering3:
  "feature_engineering example_env [drama a, action b, action c] = Inr matrix3"
  unfolding feature_engineering_def fields3 fit_transform3 fl_example continuous3 minmax3
  by (simp add: matrix3_def)

lemma sqrt3: "10 * finfo_eps \<le> sqrt 3" "sqrt 3 * sqrt 3 = 3"
proof -
  have "1 \<le> sqrt 3" by simp
  then show "10 * finfo_eps \<le> sqrt 3" using finfo_eps_bounds(2) by linarith
  show "sqrt 3 * sqrt 3 = 3" by simp
qed

lemma norm3:
  "l2_norm (matrix3 ! 0) = sqrt 3" "l2_norm (matrix3 ! Suc 0) = sqrt 3"
  "l2_norm (matrix3 ! Suc (Suc 0)) = sqrt 3"
  by (simp_all add: matrix3_def l2_norm_def)

lemma scores3:
  "cosine_similarity (matrix3 ! 0) matrix3 = [1, 0, 0]"
  "cosine_similarity (matrix3 ! Suc 0) matrix3 = [0, 1, 1]"
  "cosine_similarity (matrix3 ! Suc (Suc 0)) matrix3 = [0, 1, 1]"
proof -
  have n: "normalize (matrix3 ! 0) = map (\<lambda>x. x / sqrt 3) (matrix3 ! 0)"
    "normalize (matrix3 ! Suc 0) = map (\<lambda>x. x / sqrt 3) (matrix3 ! Suc 0)"
    "normalize (matrix3 ! Suc (Suc 0)) = map (\<lambda>x. x / sqrt 3) (matrix3 ! Suc (Suc 0))"
    using sqrt3(1) by (simp_all add: normalize_big norm3)
  have m: "matrix3 = [matrix3 ! 0, matrix3 ! Suc 0, matrix3 ! Suc (Suc 0)]"
    by (simp add: matrix3_def)
  have d: "dot (matrix3 ! 0) (matrix3 ! 0) = 3" "dot (matrix3 ! 0) (matrix3 ! Suc 0) = 0"
    "dot (matrix3 ! 0) (matrix3 ! Suc (Suc 0)) = 0" "dot (matrix3 ! Suc 0) (matrix3 ! 0) = 0"
    "dot (matrix3 ! Suc 0) (matrix3 ! Suc 0) = 3"
    "dot (matrix3 ! Suc 0) (matrix3 ! Suc (Suc 0)) = 3"
    "dot (matrix3 ! Suc (Suc 0)) (matrix3 ! 0) = 0"
    "dot (matrix3 ! Suc (Suc 0)) (matrix3 ! Suc 0) = 3"
    "dot (matrix3 ! Suc (Suc 0)) (matrix3 ! Suc (Suc 0)) = 3"
    by (simp_all add: matrix3_def)
  show "cosine_similarity (matrix3 ! 0) matrix3 = [1, 0, 0]"
    by (subst (2) m) (simp add: cosine_similarity_def n dot_map_div_left dot_map_div_right d)
  show "cosine_similarity (matrix3 ! Suc 0) matrix3 = [0, 1, 1]"
    by (subst (2) m) (simp add: cosine_similarity_def n dot_map_div_left dot_map_div_right d)
  show "cosine_similarity (matrix3 ! Suc (Suc 0)) matrix3 = [0, 1, 1]"
    by (subst (2) m) (simp add: cosine_similarity_def n dot_map_div_left dot_map_div_right d)
qed

lemma most_similar3:
  "most_similar_indices example_env [1, 0, 0] = [2, 1]"
  "most_similar_indices example_env [0, 1, 1] = [1, 0]"
  by (simp_all add: most_similar_indices_def argsort_def upt_rec)

lemma fe_empty: "feature_engineering e [] = Inl EmptyVocabulary"
  by (simp add: feature_engineering_def fit_transform_def vocabulary_def)

lemma minmax1:
  "minmax_fit_transform round_double [[24, 100, 5, 7, ln 11]] = Inr [[0, 0, 0, 0, 0]]"
  by (simp add: minmax_fit_transform_def scale_row_def column_def scale_of_def min_of_def
      data_range_def finfo_eps_def upt_rec round_double_minus round_double_idem)

lemma fe1: "feature_engineering example_env [drama a] = Inr [[1, 1, 1, 0, 0, 0, 0, 0]]"
proof -
  have a: "map (analyze example_env) [''Drama''] = [[''drama'']]"
    "map (analyze example_env) [''family''] = [[''family'']]"
    "map (analyze example_env) [''Ann Lee''] = [[''ann lee'']]"
    unfolding analyze_example by code_simp+
  have v: "vocabulary [[''drama'']] = [''drama'']" "vocabulary [[''family'']] = [''family'']"
    "vocabulary [[''ann lee'']] = [''ann lee'']"
    by code_simp+
  have f: "fit_transform example_env [''Drama''] = Inr [[1]]"
    "fit_transform example_env [''family''] = Inr [[1]]"
    "fit_transform example_env [''Ann Lee''] = Inr [[1]]"
    unfolding fit_transform_def a v Let_def
    by (simp_all add: tfidf_row_def normalize_csr_unit idf_pos)
  have t: "map genres [drama a] = [''Drama'']" "map keywords [drama a] = [''family'']"
    "map cast [drama a] = [''Ann Lee'']"
    "map (continuous_row 2024) [drama a] = [[24, 100, 5, 7, ln 11]]"
    by (simp_all add: drama_def continuous_row_def)
  show ?thesis unfolding feature_engineering_def fl_example t f minmax1 by simp
qed

lemma fe_fire: "feature_engineering example_env catalog_fire = Inl EmptyVocabulary"
proof -
  have t: "map genres catalog_fire = [''Action'']" "map keywords catalog_fire = [''Fire'']"
    by (simp_all add: catalog_fire_def action_def)
  have a: "map (analyze example_env) [''Action''] = [[''action'']]"
    "map (analyze example_env) [''Fire''] = [[]]"
    unfolding analyze_example by code_simp+
  have v: "vocabulary [[''action'']] = [''action'']" "vocabulary [[]] = []"
    by code_simp+
  have f: "fit_transform example_env [''Action''] = Inr [[1]]"
    "fit_transform example_env [''Fire''] = Inl EmptyVocabulary"
    unfolding fit_transform_def a v Let_def
    by (simp_all add: tfidf_row_def normalize_csr_unit idf_pos)
  show ?thesis unfolding feature_engineering_def t f by simp
qed

lemma entry_constant:
  "round_double (round_double (c * scale_of round_double [c, c]) + min_of round_double [c, c]) = 0"
  "round_double (round_double (c * scale_of round_double [c, c, c]) + min_of round_double [c, c, c]) = 0"
  using scaled_constant[OF is_rounding_round_double, of c "[c, c]"]
    scaled_constant[OF is_rounding_round_double, of c "[c, c, c]"]
  by simp_all

lemma runtime_scale: "scale_of round_double [80, 106] = 5542891849071380 / 2 ^ 57"
proof -
  have "data_range round_double [80, 106] = 26"
    by (simp add: data_range_def rd_26r)
  then show ?thesis
    by (simp add: scale_of_def finfo_eps_def rd_26)
qed

lemma runtime_min: "min_of round_double [80, 106] = - (6928614811339225 / 2 ^ 51)"
proof -
  have "list_min [80, 106::real] = 80" by simp
  then have "min_of round_double [80, 106] =
      - round_double (80 * (5542891849071380 / 2 ^ 57))"
    using min_of_eq[OF is_rounding_round_double, of "[80, 106]"] by (simp only: runtime_scale)
  then show ?thesis by (simp only: rd_80)
qed

lemma runtime_entries:
  "round_double (round_double (80 * scale_of round_double [80, 106]) +
     min_of round_double [80, 106]) = 0"
  "round_double (round_double (106 * scale_of round_double [80, 106]) +
     min_of round_double [80, 106]) = 1 + 1 / 2 ^ 51"
proof -
  show "round_double (round_double (80 * scale_of round_double [80, 106]) +
     min_of round_double [80, 106]) = 0"
    unfolding runtime_scale runtime_min rd_80 by simp
  have "round_double (round_double (106 * scale_of round_double [80, 106]) +
     min_of round_double [80, 106]) =
     round_double (4590207312512237 / 2 ^ 50 - 6928614811339225 / 2 ^ 51)"
    unfolding runtime_scale runtime_min rd_106 by (simp only: minus_real_def[symmetric])
  then show "round_double (round_double (106 * scale_of round_double [80, 106]) +
     min_of round_double [80, 106]) = 1 + 1 / 2 ^ 51"
    by (simp only: rd_sum)
qed

lemma minmax_runtime:
  "minmax_fit_transform round_double [[24, 80, 5, 7, ln 11], [24, 106, 5, 7, ln 11]] =
   Inr [[0, 0, 0, 0, 0], [0, 1 + 1 / 2 ^ 51, 0, 0, 0]]"
  unfolding minmax_fit_transform_def scale_row_def column_def
  by (simp add: upt_rec entry_constant runtime_entries del: One_nat_def)

lemma fit_transform2_same:
  "fit_transform example_env [''Drama'', ''Drama''] = Inr [[1], [1]]"
  "fit_transform example_env [''family'', ''family''] = Inr [[1], [1]]"
  "fit_transform example_env [''Ann Lee'', ''Ann Lee''] = Inr [[1], [1]]"
  "fit_transform example_env [''space war'', ''space war''] = Inr [[1], [1]]"
  "fit_transform example_env [''Bo Kim'', ''Bo Kim''] = Inr [[1], [1]]"
proof -
  have a: "map (analyze example_env) [''Drama'', ''Drama''] = [[''drama''], [''drama'']]"
    "map (analyze example_env) [''family'', ''family''] = [[''family''], [''family'']]"
    "map (analyze example_env) [''Ann Lee'', ''Ann Lee''] = [[''ann lee''], [''ann lee'']]"
    "map (analyze example_env) [''space war'', ''space war''] = [[''space war''], [''space war'']]"
    "map (analyze example_env) [''Bo Kim'', ''Bo Kim''] = [[''bo kim''], [''bo kim'']]"
    unfolding analyze_example by code_simp+
  have v: "vocabulary [[''drama''], [''drama'']] = [''drama'']"
    "vocabulary [[''family''], [''family'']] = [''family'']"
    "vocabulary [[''ann lee''], [''ann lee'']] = [''ann lee'']"
    "vocabulary [[''space war''], [''space war'']] = [''space war'']"
    "vocabulary [[''bo kim''], [''bo kim'']] = [''bo kim'']"
    by code_simp+
  show "fit_transform example_env [''Drama'', ''Drama''] = Inr [[1], [1]]"
    "fit_transform example_env [''family'', ''family''] = Inr [[1], [1]]"
    "fit_transform example_env [''Ann Lee'', ''Ann Lee''] = Inr [[1], [1]]"
    "fit_transform example_env [''space war'', ''space war''] = Inr [[1], [1]]"
    "fit_transform example_env [''Bo Kim'', ''Bo Kim''] = Inr [[1], [1]]"
    unfolding fit_transform_def a v Let_def
    by (simp_all add: tfidf_row_def normalize_csr_unit idf_pos)
qed

lemma fe_runtime: "feature_engineering example_env catalog_runtime = Inr matrix_runtime"
proof -
  have t: "map genres catalog_runtime = [''Drama'', ''Drama'']"
    "map keywords catalog_runtime = [''family'', ''family'']"
    "map cast catalog_runtime = [''Ann Lee'', ''Ann Lee'']"
    "map (continuous_row 2024) catalog_runtime =
       [[24, 80, 5, 7, ln 11], [24, 106, 5, 7, ln 11]]"
    by (simp_all add: catalog_runtime_def drama_def continuous_row_def)
  show ?thesis
    unfolding feature_engineering_def fl_example t fit_transform2_same minmax_runtime
    by (simp add: matrix_runtime_def)
qed

lemma normalize_csr_pair:
  "normalize_csr [1, a, 0] = [1 / sqrt (1 + a * a), a / sqrt (1 + a * a), 0]"
  "normalize_csr [1, 0, a] = [1 / sqrt (1 + a * a), 0, a / sqrt (1 + a * a)]"
proof -
  have "0 < 1 + a * a" by (rule add_pos_nonneg) simp_all
  then have "sqrt (1 + a * a) \<noteq> 0" by simp
  then show "normalize_csr [1, a, 0] = [1 / sqrt (1 + a * a), a / sqrt (1 + a * a), 0]"
    "normalize_csr [1, 0, a] = [1 / sqrt (1 + a * a), 0, a / sqrt (1 + a * a)]"
    by (simp_all add: normalize_csr_def l2_norm_def)
qed

lemma fit_transform_genres2:
  "fit_transform example_env [''Action|Adventure'', ''Action|Sci-Fi''] = Inr genres2"
proof -
  have a: "map (analyze example_env) [''Action|Adventure'', ''Action|Sci-Fi''] =
      [[''action'', ''adventure''], [''action'', ''sci-fi'']]"
    unfolding analyze_example by code_simp
  have v: "vocabulary [[''action'', ''adventure''], [''action'', ''sci-fi'']] =
      [''action'', ''adventure'', ''sci-fi'']"
    by code_simp
  have df: "doc_freq [[''action'', ''adventure''], [''action'', ''sci-fi'']] ''action'' = 2"
    "doc_freq [[''action'', ''adventure''], [''action'', ''sci-fi'']] ''adventure'' = 1"
    "doc_freq [[''action'', ''adventure''], [''action'', ''sci-fi'']] ''sci-fi'' = 1"
    by code_simp+
  have cl: "count_list [''action'', ''adventure''] ''action'' = 1"
    "count_list [''action'', ''adventure''] ''adventure'' = 1"
    "count_list [''action'', ''adventure''] ''sci-fi'' = 0"
    "count_list [''action'', ''sci-fi''] ''action'' = 1"
    "count_list [''action'', ''sci-fi''] ''adventure'' = 0"
    "count_list [''action'', ''sci-fi''] ''sci-fi'' = 1"
    by code_simp+
  have i: "idf [[''action'', ''adventure''], [''action'', ''sci-fi'']] ''action'' = 1"
    "idf [[''action'', ''adventure''], [''action'', ''sci-fi'']] ''adventure'' = ln (3 / 2) + 1"
    "idf [[''action'', ''adventure''], [''action'', ''sci-fi'']] ''sci-fi'' = ln (3 / 2) + 1"
    unfolding idf_def df by simp_all
  have r: "tfidf_row [[''action'', ''adventure''], [''action'', ''sci-fi'']]
        [''action'', ''adventure'', ''sci-fi''] [''action'', ''adventure''] =
      normalize_csr [1, ln (3 / 2) + 1, 0]"
    "tfidf_row [[''action'', ''adventure''], [''action'', ''sci-fi'']]
        [''action'', ''adventure'', ''sci-fi''] [''action'', ''sci-fi''] =
      normalize_csr [1, 0, ln (3 / 2) + 1]"
    unfolding tfidf_row_def list.map cl i by simp_all
  show ?thesis
    unfolding fit_transform_def a v Let_def
    by (simp add: r normalize_csr_pair genres2_def)
qed

lemma fe2: "feature_engineering example_env catalog2 = Inr matrix2"
proof -
  have t: "map genres catalog2 = [''Action|Adventure'', ''Action|Sci-Fi'']"
    "map keywords catalog2 = [''space war'', ''space war'']"
    "map cast catalog2 = [''Bo Kim'', ''Bo Kim'']"
    "map (continuous_row 2024) catalog2 = [[24, 100, 5, 7, ln 11], [24, 100, 5, 7, ln 11]]"
    by (simp_all add: catalog2_def action_def continuous_row_def)
  have m: "minmax_fit_transform round_double [[24, 100, 5, 7, ln 11], [24, 100, 5, 7, ln 11]] =
      Inr [[0, 0, 0, 0, 0], [0, 0, 0, 0, 0]]"
    unfolding minmax_fit_transform_def scale_row_def column_def
    by (simp add: upt_rec entry_constant del: One_nat_def)
  show ?thesis
    unfolding feature_engineering_def fl_example t fit_transform_genres2 fit_transform2_same m
    by (simp add: matrix2_def genres2_def)
qed







lemma fit_transform_env:
  "stop_words e' = stop_words e \<Longrightarrow> str_lower e' = str_lower e \<Longrightarrow>
   fit_transform e' texts = fit_transform e texts"
proof -
  assume "stop_words e' = stop_words e" and "str_lower e' = str_lower e"
  then have "analyze e' = analyze e" by (simp add: fun_eq_iff analyze_def)
  then show ?thesis by (simp add: fit_transform_def)
qed

lemma feature_engineering_tie_rank:
  "feature_engineering (e\<lparr>tie_rank := tr\<rparr>) ms = feature_engineering e ms"
proof -
  have f: "fit_transform (e\<lparr>tie_rank := tr\<rparr>) texts = fit_transform e texts" for texts
    by (rule fit_transform_env) simp_all
  have s: "fl (e\<lparr>tie_rank := tr\<rparr>) = fl e"
    "current_year (e\<lparr>tie_rank := tr\<rparr>) = current_year e"
    by simp_all
  show ?thesis unfolding feature_engineering_def f s by (rule refl)
qed

text \<open>
  In \<open>catalog3\<close> the rows of \<open>Action One\<close> and \<open>Action Two\<close> are equal. Whatever order
  \<^verbatim>\<open>argsort\<close> gives equal scores, one of the two titles is recommended to itself.
\<close>

lemma self_recommended_any_tie_order:
  "(\<exists>recs. fst (calculate_similarity (example_env\<lparr>tie_rank := tr\<rparr>) (init catalog3)
              ''Action One'') = Inr recs \<and> ''Action One'' \<in> set recs) \<or>
   (\<exists>recs. fst (calculate_similarity (example_env\<lparr>tie_rank := tr\<rparr>) (init catalog3)
              ''Action Two'') = Inr recs \<and> ''Action Two'' \<in> set recs)"
proof -
  let ?e = "example_env\<lparr>tie_rank := tr\<rparr>"
  let ?kept = "take 5 (drop 1 (rev (argsort ?e [0, 1, 1])))"
  have fe: "feature_engineering ?e [drama ''Drama One'', action ''Action One'',
      action ''Action Two''] = Inr matrix3"
    unfolding feature_engineering_tie_rank by (rule feature_engineering3)
  have r1: "fst (calculate_similarity ?e (init catalog3) ''Action One'') =
      Inr (map (\<lambda>i. title (catalog3 ! i)) ?kept)"
    unfolding catalog3_def calculate_similarity_init[OF fe]
    by (simp add: scores3 most_similar_indices_def drama_def action_def)
  have r2: "fst (calculate_similarity ?e (init catalog3) ''Action Two'') =
      Inr (map (\<lambda>i. title (catalog3 ! i)) ?kept)"
    unfolding catalog3_def calculate_similarity_init[OF fe]
    by (simp add: scores3 most_similar_indices_def drama_def action_def)
  have "set (argsort ?e [0, 1, 1]) = {0, 1, 2}"
    unfolding set_argsort by auto
  from one_of_two_kept[OF distinct_argsort this]
  have "1 \<in> set ?kept \<or> 2 \<in> set ?kept" .
  then show ?thesis
  proof
    assume "1 \<in> set ?kept"
    then have "title (catalog3 ! 1) \<in> (\<lambda>i. title (catalog3 ! i)) ` set ?kept"
      by (rule imageI)
    then have "title (catalog3 ! 1) \<in> set (map (\<lambda>i. title (catalog3 ! i)) ?kept)"
      by (simp only: set_map)
    then have "''Action One'' \<in> set (map (\<lambda>i. title (catalog3 ! i)) ?kept)"
      by (simp add: catalog3_def action_def)
    with r1 show ?thesis by blast
  next
    assume "2 \<in> set ?kept"
    then have "title (catalog3 ! 2) \<in> (\<lambda>i. title (catalog3 ! i)) ` set ?kept"
      by (rule imageI)
    then have "title (catalog3 ! 2) \<in> set (map (\<lambda>i. title (catalog3 ! i)) ?kept)"
      by (simp only: set_map)
    then have "''Action Two'' \<in> set (map (\<lambda>i. title (catalog3 ! i)) ?kept)"
      by (simp add: catalog3_def action_def)
    with r2 show ?thesis by blast
  qed
qed

lemma fe_runtime_exact:
  "feature_engineering exact_env catalog_runtime =
     Inr [[1, 1, 1, 0, 0, 0, 0, 0], [1, 1, 1, 0, 1, 0, 0, 0]]"
proof -
  have t: "map genres catalog_runtime = [''Drama'', ''Drama'']"
    "map keywords catalog_runtime = [''family'', ''family'']"
    "map cast catalog_runtime = [''Ann Lee'', ''Ann Lee'']"
    "map (continuous_row 2024) catalog_runtime =
       [[24, 80, 5, 7, ln 11], [24, 106, 5, 7, ln 11]]"
    by (simp_all add: catalog_runtime_def drama_def continuous_row_def)
  have e: "fl exact_env = (\<lambda>x. x)" "current_year exact_env = 2024"
    by (simp_all add: exact_env_def example_env_def)
  have f: "fit_transform exact_env texts = fit_transform example_env texts" for texts
    by (rule fit_transform_env) (simp_all add: exact_env_def)
  have m: "minmax_fit_transform (\<lambda>x. x) [[24, 80, 5, 7, ln 11], [24, 106, 5, 7, ln 11]] =
      Inr [[0, 0, 0, 0, 0], [0, 1, 0, 0, 0]]"
    by (simp add: minmax_fit_transform_def scale_row_def column_def scale_of_def min_of_def
        data_range_def finfo_eps_def upt_rec)
  show ?thesis
    unfolding feature_engineering_def e t f fit_transform2_same m by simp
qed

lemma calc_drama_one:
  "calculate_similarity example_env (init catalog3) ''Drama One'' =
     (Inr [''Action Two'', ''Action One''], (init catalog3)\<lparr>feature_matrix := Some matrix3\<rparr>)"
  unfolding catalog3_def calculate_similarity_init[OF feature_engineering3]
  by (simp add: scores3 most_similar3 drama_def action_def)

lemma weights2:
  "tfidf_weight [[''action'', ''adventure''], [''action'', ''sci-fi'']]
     [''action'', ''adventure''] ''action'' = 1"
  "tfidf_weight [[''action'', ''adventure''], [''action'', ''sci-fi'']]
     [''action'', ''adventure''] ''adventure'' = ln (3 / 2) + 1"
  "tfidf_weight [[''action'', ''adventure''], [''action'', ''sci-fi'']]
     [''action'', ''adventure''] ''sci-fi'' = 0"
proof -
  have df: "doc_freq [[''action'', ''adventure''], [''action'', ''sci-fi'']] ''action'' = 2"
    "doc_freq [[''action'', ''adventure''], [''action'', ''sci-fi'']] ''adventure'' = 1"
    by code_simp+
  have cl: "count_list [''action'', ''adventure''] ''action'' = 1"
    "count_list [''action'', ''adventure''] ''adventure'' = 1"
    "count_list [''action'', ''adventure''] ''sci-fi'' = 0"
    by code_simp+
  show "tfidf_weight [[''action'', ''adventure''], [''action'', ''sci-fi'']]
     [''action'', ''adventure''] ''action'' = 1"
    unfolding raw_weight[symmetric] cl idf_def df by simp
  show "tfidf_weight [[''action'', ''adventure''], [''action'', ''sci-fi'']]
     [''action'', ''adventure''] ''adventure'' = ln (3 / 2) + 1"
    unfolding raw_weight[symmetric] cl idf_def df by simp
  show "tfidf_weight [[''action'', ''adventure''], [''action'', ''sci-fi'']]
     [''action'', ''adventure''] ''sci-fi'' = 0"
    unfolding raw_weight[symmetric] cl by simp
qed

lemma vocabulary2_unique:
  assumes "sorted voc" and "distinct voc"
    and "set voc = (\<Union>d\<in>set [[''action'', ''adventure''], [''action'', ''sci-fi'']]. set d)"
  shows "voc = [''action'', ''adventure'', ''sci-fi'']"
proof -
  have "sorted [''action'', ''adventure'', ''sci-fi'']" by code_simp
  moreover have "distinct [''action'', ''adventure'', ''sci-fi'']" by code_simp
  moreover have "set voc = set [''action'', ''adventure'', ''sci-fi'']"
    unfolding assms(3) by auto
  ultimately show ?thesis
    using assms(1,2) by (intro sorted_distinct_set_unique) simp_all
qed

section \<open>The claims\<close>

text \<open>
  C1, failing input. The comment of line 207 says that the slice excludes the target
  movie; it drops position 0 of the descending order, whatever row stands there. In
  \<open>catalog3\<close> the rows of \<open>Action One\<close> and \<open>Action Two\<close> are equal, so both score 1
  against \<open>Action One\<close>; where \<^verbatim>\<open>argsort\<close> leaves equal scores in row order, the reversed
  order starts with \<open>Action Two\<close>, which is dropped, and \<open>Action One\<close> is recommended to
  itself. The scores against \<open>Action Two\<close> are the same list (\<open>scores3\<close>), so with any
  other order of the equal scores one of the two titles is still returned for itself
  (\<open>self_recommended_any_tie_order\<close>).
\<close>

theorem target_recommended_to_itself:
  "fst (calculate_similarity example_env (init catalog3) ''Action One'') =
     Inr [''Action One'', ''Drama One'']"
  unfolding catalog3_def calculate_similarity_init[OF feature_engineering3]
  by (simp add: scores3 most_similar3 drama_def action_def)

text \<open>
  C2, as stated, fails: \<^verbatim>\<open>calculate_similarity\<close> has no parameter \<open>k\<close>, the slice is the
  constant \<^verbatim>\<open>[1:6]\<close>. For \<open>k = 1\<close> and the three movies of \<open>catalog3\<close> the specification
  asks for one title; the code returns two.
\<close>

theorem result_length_counterexample:
  "fst (calculate_similarity example_env (init catalog3) ''Drama One'') =
     Inr [''Action Two'', ''Action One''] \<and>
   length [''Action Two'', ''Action One''] \<noteq> spec_result_length 1 (length catalog3)"
proof -
  have "fst (calculate_similarity example_env (init catalog3) ''Drama One'') =
     Inr [''Action Two'', ''Action One'']"
    by (simp add: calc_drama_one)
  then show ?thesis by (simp add: spec_result_length_def catalog3_def)
qed

text \<open>
  C2, amended: there is no parameter \<open>k\<close>; whenever \<^verbatim>\<open>calculate_similarity\<close> returns a
  list, on a recommender whose index and matrix come from its movie list, the list has
  exactly \<open>min 5 (N - 1)\<close> titles, \<open>N\<close> the number of movies.
\<close>

theorem result_length:
  assumes "consistent e r" and "fst (calculate_similarity e r t) = Inr recs"
  shows "length recs = min 5 (length (movies r) - 1)"
  using assms by (rule length_recommendations)

theorem result_length_witness:
  "consistent example_env (init catalog3) \<and>
   fst (calculate_similarity example_env (init catalog3) ''Drama One'') =
     Inr [''Action Two'', ''Action One''] \<and>
   length [''Action Two'', ''Action One''] = min 5 (length (movies (init catalog3)) - 1)"
proof -
  have c: "consistent example_env (init catalog3)" by (rule consistent_init)
  have r: "fst (calculate_similarity example_env (init catalog3) ''Drama One'') =
     Inr [''Action Two'', ''Action One'']"
    by (simp add: calc_drama_one)
  from result_length[OF c r] c r show ?thesis by simp
qed

text \<open>
  C3, as stated, fails in both directions of reading it. On the empty catalog the
  title is absent, yet the error is the one of the vectorizer, raised before the
  lookup of line 200. On \<open>catalog_fire\<close> the title is present, yet the call raises: the
  only keyword is a stop word, and the vectorizer's error is a \<^verbatim>\<open>ValueError\<close> as the
  error of line 203 is.
\<close>

theorem not_found_counterexample:
  "movie_indices (init []) ''Inception'' = None \<and>
   fst (calculate_similarity example_env (init []) ''Inception'') = Inl EmptyVocabulary \<and>
   movie_indices (init catalog_fire) ''Backdraft'' = Some 0 \<and>
   fst (calculate_similarity example_env (init catalog_fire) ''Backdraft'') =
     Inl EmptyVocabulary"
proof -
  have "fst (calculate_similarity example_env (init []) ''Inception'') = Inl EmptyVocabulary"
    by (rule calculate_similarity_build_error) (simp_all add: init_def fe_empty)
  moreover have
    "fst (calculate_similarity example_env (init catalog_fire) ''Backdraft'') =
       Inl EmptyVocabulary"
    by (rule calculate_similarity_build_error) (simp_all add: init_def fe_fire)
  moreover have "movie_indices (init []) ''Inception'' = None"
    by (simp add: init_def)
  moreover have "movie_indices (init catalog_fire) ''Backdraft'' = Some 0"
    by (simp add: init_def catalog_fire_def action_def)
  ultimately show ?thesis by simp
qed

text \<open>
  C3, amended: when the feature matrix is stored already or its build succeeds,
  \<^verbatim>\<open>calculate_similarity\<close> raises if and only if the title is absent from the index, the
  error is the one of line 203 for this title, and it is the result of the call (nothing
  catches it). When the build raises, its error is the result, whatever the title.
\<close>

theorem not_found_iff_absent:
  assumes "feature_matrix r = Some M \<or>
           (feature_matrix r = None \<and> feature_engineering e (movies r) = Inr M)"
  shows "((\<exists>err. fst (calculate_similarity e r t) = Inl err) \<longleftrightarrow> movie_indices r t = None) \<and>
         (fst (calculate_similarity e r t) = Inl (MovieNotFound t) \<longleftrightarrow>
            movie_indices r t = None)"
proof -
  from assms have
    "(case feature_matrix r of None \<Rightarrow> feature_engineering e (movies r) | Some M \<Rightarrow> Inr M) = Inr M"
    by auto
  then show ?thesis
    by (cases "movie_indices r t") (simp_all add: calculate_similarity_cases)
qed

theorem not_found_iff_absent_witness:
  "(feature_matrix (init catalog3) = Some matrix3 \<or>
    (feature_matrix (init catalog3) = None \<and>
     feature_engineering example_env (movies (init catalog3)) = Inr matrix3)) \<and>
   movie_indices (init catalog3) ''Nonexistent Movie'' = None \<and>
   fst (calculate_similarity example_env (init catalog3) ''Nonexistent Movie'') =
     Inl (MovieNotFound ''Nonexistent Movie'')"
proof -
  have h: "feature_matrix (init catalog3) = Some matrix3 \<or>
    (feature_matrix (init catalog3) = None \<and>
     feature_engineering example_env (movies (init catalog3)) = Inr matrix3)"
    using feature_engineering3 by (simp add: init_def catalog3_def)
  have a: "movie_indices (init catalog3) ''Nonexistent Movie'' = None"
    by (simp add: init_def catalog3_def drama_def action_def)
  from not_found_iff_absent[OF h, of "''Nonexistent Movie''"] h a
  show ?thesis by simp
qed




text \<open>
  C5, as stated, fails in double precision. Of two movies with the runtimes 80 and 106
  the scaler gives the second the runtime \<open>1 + 2^-51\<close>, which a double prints as
  1.0000000000000004: \<^verbatim>\<open>scale_\<close> is 1 / 26 rounded, \<^verbatim>\<open>min_\<close> is the rounded product
  of 80 and \<^verbatim>\<open>scale_\<close>, negated, and the rounded product of 106 and \<^verbatim>\<open>scale_\<close> plus
  \<^verbatim>\<open>min_\<close> is above 1.
\<close>

theorem scaled_above_one_counterexample:
  "feature_engineering example_env catalog_runtime = Inr matrix_runtime \<and>
   map runtime catalog_runtime = [80, 106] \<and>
   scale_of round_double [80, 106] = 5542891849071380 / 2 ^ 57 \<and>
   min_of round_double [80, 106] = - (6928614811339225 / 2 ^ 51) \<and>
   matrix_runtime ! 1 ! 4 = 1 + 1 / 2 ^ 51 \<and> 1 < matrix_runtime ! 1 ! 4"
proof -
  have "map runtime catalog_runtime = [80, 106]"
    by (simp add: catalog_runtime_def)
  moreover have "matrix_runtime ! 1 ! 4 = 1 + 1 / 2 ^ 51"
    by (simp add: matrix_runtime_def)
  moreover have "(1::real) < 1 + 1 / 2 ^ 51" by simp
  ultimately show ?thesis
    using fe_runtime runtime_scale runtime_min by simp
qed

text \<open>
  C5, amended: the scaled continuous block is the last five columns of every row of the
  feature matrix (age in years, runtime, popularity, vote average,
  \<open>ln (1 + vote_count)\<close>). With every rounding that keeps 0, commutes with negation, is
  idempotent and monotone (as the rounding to the nearest double is,
  \<open>is_rounding_round_double\<close>), each scaled value is at least 0, and it is 0 when the
  largest and the smallest raw value of its column are equal. It is at most 1 when the
  arithmetic is exact; with rounding it can exceed 1.
\<close>

theorem continuous_features_scaled:
  assumes "is_rounding (fl e)" and "feature_engineering e ms = Inr M"
    and "i < length ms" and "j < 5"
  shows "\<exists>S. minmax_fit_transform (fl e) (map (continuous_row (current_year e)) ms) = Inr S \<and>
           drop (length (M ! i) - 5) (M ! i) = S ! i \<and> length (S ! i) = 5 \<and>
           0 \<le> S ! i ! j \<and>
           (list_max (column (map (continuous_row (current_year e)) ms) j) =
            list_min (column (map (continuous_row (current_year e)) ms) j)
              \<longrightarrow> S ! i ! j = 0) \<and>
           ((\<forall>x. fl e x = x) \<longrightarrow> S ! i ! j \<le> 1)"
proof -
  let ?rows = "map (continuous_row (current_year e)) ms"
  from feature_rows[OF assms(2)] obtain G K C S where
    S: "minmax_fit_transform (fl e) ?rows = Inr S" and
    row: "M ! i = G ! i @ K ! i @ C ! i @ S ! i"
    using assms(3) by blast
  have i: "i < length ?rows" using assms(3) by simp
  have len5: "length (?rows ! i) = 5" using assms(3) by (simp add: continuous_row_def)
  then have j: "j < length (?rows ! i)" using assms(4) by simp
  have lenS: "length (S ! i) = 5" using minmax_nth(2)[OF S i j] len5 by simp
  have val: "S ! i ! j =
      fl e (fl e (?rows ! i ! j * scale_of (fl e) (column ?rows j)) + min_of (fl e) (column ?rows j))"
    by (rule minmax_nth(1)[OF S i j])
  have mem: "?rows ! i ! j \<in> set (column ?rows j)" by (rule nth_in_column[OF i])
  have "drop (length (M ! i) - 5) (M ! i) = S ! i"
    by (simp add: row lenS)
  moreover have "0 \<le> S ! i ! j"
    unfolding val by (rule scaled_nonneg[OF assms(1) mem])
  moreover have "S ! i ! j = 0" if "list_max (column ?rows j) = list_min (column ?rows j)"
    unfolding val by (rule scaled_constant[OF assms(1) mem that])
  moreover have "S ! i ! j \<le> 1" if "\<forall>x. fl e x = x"
  proof -
    from that have "fl e = (\<lambda>x. x)" by (simp add: fun_eq_iff)
    then show ?thesis
      unfolding val using scaled_le_one_exact[OF mem] by simp
  qed
  ultimately show ?thesis using S lenS by blast
qed

theorem continuous_features_scaled_witness:
  "is_rounding (fl example_env) \<and>
   feature_engineering example_env catalog_runtime = Inr matrix_runtime \<and>
   (1::nat) < length catalog_runtime \<and>
   list_max (column (map (continuous_row (current_year example_env)) catalog_runtime) 0) =
   list_min (column (map (continuous_row (current_year example_env)) catalog_runtime) 0) \<and>
   drop (length (matrix_runtime ! 1) - 5) (matrix_runtime ! 1) = [0, 1 + 1 / 2 ^ 51, 0, 0, 0] \<and>
   [0, 1 + 1 / 2 ^ 51, 0, 0, 0] ! 0 = (0::real) \<and>
   (0::real) \<le> [0, 1 + 1 / 2 ^ 51, 0, 0, 0] ! 1 \<and>
   is_rounding (fl exact_env) \<and> (\<forall>x. fl exact_env x = x) \<and>
   feature_engineering exact_env catalog_runtime =
     Inr [[1, 1, 1, 0, 0, 0, 0, 0], [1, 1, 1, 0, 1, 0, 0, 0]] \<and>
   [1, 1, 1, 0, 1, 0, 0, 0] ! 4 \<le> (1::real)"
proof -
  have r: "is_rounding (fl example_env)"
    by (simp add: is_rounding_round_double)
  have l: "(1::nat) < length catalog_runtime" by (simp add: catalog_runtime_def)
  have c: "list_max (column (map (continuous_row (current_year example_env)) catalog_runtime) 0) =
    list_min (column (map (continuous_row (current_year example_env)) catalog_runtime) 0)"
    by (simp add: catalog_runtime_def column_def continuous_row_def drama_def)
  have x: "is_rounding (fl exact_env)" "\<forall>x. fl exact_env x = x"
    by (simp_all add: exact_env_def is_rounding_exact)
  from continuous_features_scaled[OF r fe_runtime l, of 0]
    continuous_features_scaled[OF r fe_runtime l, of 1]
    continuous_features_scaled[OF x(1) fe_runtime_exact l, of 1]
  show ?thesis
    using r l c x fe_runtime fe_runtime_exact by (simp add: matrix_runtime_def)
qed




text \<open>
  C7: a text is cut at the bars and nowhere else, so a piece with blanks in it is one
  token; the tokens of a field value are the pieces of its lower-cased text that are not
  in the stop list. Each of the three fields is weighted by a \<^verbatim>\<open>fit_transform\<close> of its
  own, on the texts of that field alone, and the block it gives is the TF-IDF weighting of
  these texts (\<open>tfidf_block\<close>): one column per term, the terms in sorted order, each row
  the positive multiple of the weights of its document, count times
  \<open>ln ((1 + n) / (1 + df)) + 1\<close>, that has norm 1, or zero. Every row of the feature
  matrix is the row of genres, then keywords, then cast, then the scaled continuous
  values.
\<close>

theorem feature_layout:
  assumes "CHR ''|'' \<notin> set u" and "feature_engineering e ms = Inr M"
  shows "split_bar u = [u] \<and> split_bar (u @ CHR ''|'' # v) = u # split_bar v \<and>
         analyze e doc = filter (\<lambda>t. t \<notin> set (stop_words e)) (split_bar (str_lower e doc)) \<and>
         (\<exists>G K C S.
            fit_transform e (map genres ms) = Inr G \<and>
            tfidf_block (map (analyze e) (map genres ms)) G \<and>
            fit_transform e (map keywords ms) = Inr K \<and>
            tfidf_block (map (analyze e) (map keywords ms)) K \<and>
            fit_transform e (map cast ms) = Inr C \<and>
            tfidf_block (map (analyze e) (map cast ms)) C \<and>
            minmax_fit_transform (fl e) (map (continuous_row (current_year e)) ms) = Inr S \<and>
            length M = length ms \<and>
            (\<forall>i<length ms. M ! i = G ! i @ K ! i @ C ! i @ S ! i))"
proof -
  from feature_rows[OF assms(2)] obtain G K C S where
    f: "fit_transform e (map genres ms) = Inr G" "fit_transform e (map keywords ms) = Inr K"
      "fit_transform e (map cast ms) = Inr C"
      "minmax_fit_transform (fl e) (map (continuous_row (current_year e)) ms) = Inr S"
      "length M = length ms" "\<forall>i<length ms. M ! i = G ! i @ K ! i @ C ! i @ S ! i"
    by blast
  have "tfidf_block (map (analyze e) (map genres ms)) G"
    "tfidf_block (map (analyze e) (map keywords ms)) K"
    "tfidf_block (map (analyze e) (map cast ms)) C"
    by (rule fit_transform_tfidf[OF f(1)], rule fit_transform_tfidf[OF f(2)],
        rule fit_transform_tfidf[OF f(3)])
  with f have "\<exists>G K C S.
            fit_transform e (map genres ms) = Inr G \<and>
            tfidf_block (map (analyze e) (map genres ms)) G \<and>
            fit_transform e (map keywords ms) = Inr K \<and>
            tfidf_block (map (analyze e) (map keywords ms)) K \<and>
            fit_transform e (map cast ms) = Inr C \<and>
            tfidf_block (map (analyze e) (map cast ms)) C \<and>
            minmax_fit_transform (fl e) (map (continuous_row (current_year e)) ms) = Inr S \<and>
            length M = length ms \<and>
            (\<forall>i<length ms. M ! i = G ! i @ K ! i @ C ! i @ S ! i)"
    by blast
  then show ?thesis
    using split_bar_no_bar[OF assms(1)] split_bar_append[OF assms(1)]
    by (simp add: analyze_def)
qed

theorem feature_layout_witness:
  "CHR ''|'' \<notin> set ''space war'' \<and> feature_engineering example_env catalog2 = Inr matrix2 \<and>
   split_bar ''space war'' = [''space war''] \<and>
   split_bar (''space war'' @ CHR ''|'' # ''future'') = ''space war'' # split_bar ''future'' \<and>
   map (analyze example_env) (map genres catalog2) =
     [[''action'', ''adventure''], [''action'', ''sci-fi'']] \<and>
   fit_transform example_env (map genres catalog2) = Inr genres2 \<and>
   (\<exists>c. 0 < c \<and> genres2 ! 0 = [c * 1, c * (ln (3 / 2) + 1), c * 0]) \<and>
   length matrix2 = length catalog2"
proof -
  have a: "CHR ''|'' \<notin> set ''space war''" by simp
  have t: "map genres catalog2 = [''Action|Adventure'', ''Action|Sci-Fi'']"
    by (simp add: catalog2_def)
  have d: "map (analyze example_env) (map genres catalog2) =
      [[''action'', ''adventure''], [''action'', ''sci-fi'']]"
    unfolding t analyze_example by code_simp
  have g: "fit_transform example_env (map genres catalog2) = Inr genres2"
    unfolding t by (rule fit_transform_genres2)
  from feature_layout[OF a fe2, of "''future''"] obtain G where
    s: "split_bar ''space war'' = [''space war'']"
       "split_bar (''space war'' @ CHR ''|'' # ''future'') = ''space war'' # split_bar ''future''"
    and G: "fit_transform example_env (map genres catalog2) = Inr G"
       "tfidf_block (map (analyze example_env) (map genres catalog2)) G"
    and l: "length matrix2 = length catalog2"
    by blast
  from G(1) g have "G = genres2" by simp
  with G(2) have "tfidf_block [[''action'', ''adventure''], [''action'', ''sci-fi'']] genres2"
    unfolding d by simp
  then obtain voc where voc: "sorted voc" "distinct voc"
    "set voc = (\<Union>d\<in>set [[''action'', ''adventure''], [''action'', ''sci-fi'']]. set d)"
    and row: "\<forall>i<length [[''action'', ''adventure''], [''action'', ''sci-fi'']].
       length (genres2 ! i) = length voc \<and>
       (\<exists>c>0. \<forall>j<length voc. genres2 ! i ! j =
          c * tfidf_weight [[''action'', ''adventure''], [''action'', ''sci-fi'']]
                ([[''action'', ''adventure''], [''action'', ''sci-fi'']] ! i) (voc ! j)) \<and>
       (sum_list (map (\<lambda>v. v * v) (genres2 ! i)) = 1 \<or> set (genres2 ! i) \<subseteq> {0})"
    unfolding tfidf_block_def by blast
  have v: "voc = [''action'', ''adventure'', ''sci-fi'']"
    using voc by (rule vocabulary2_unique)
  have "(0::nat) < length [[''action'', ''adventure''], [''action'', ''sci-fi'']]" by simp
  with row have "\<exists>c>0. \<forall>j<length voc. genres2 ! 0 ! j =
       c * tfidf_weight [[''action'', ''adventure''], [''action'', ''sci-fi'']]
             ([[''action'', ''adventure''], [''action'', ''sci-fi'']] ! 0) (voc ! j)"
    by blast
  then obtain c where c: "0 < c"
    "\<forall>j<length voc. genres2 ! 0 ! j =
       c * tfidf_weight [[''action'', ''adventure''], [''action'', ''sci-fi'']]
             ([[''action'', ''adventure''], [''action'', ''sci-fi'']] ! 0) (voc ! j)"
    by blast
  have w: "genres2 ! 0 ! j =
       c * tfidf_weight [[''action'', ''adventure''], [''action'', ''sci-fi'']]
             [''action'', ''adventure''] ([''action'', ''adventure'', ''sci-fi''] ! j)"
    if "j < 3" for j
    using c(2)[rule_format, of j] that unfolding v by simp
  have e0: "genres2 ! 0 ! 0 = c * 1"
    using w[of 0] by (simp add: weights2)
  have e1: "genres2 ! 0 ! 1 = c * (ln (3 / 2) + 1)"
    using w[of 1] by (simp add: weights2)
  have e2: "genres2 ! 0 ! 2 = c * 0"
    using w[of 2] by (simp add: weights2)
  have "length (genres2 ! 0) = 3" by (simp add: genres2_def)
  then obtain x y z where xyz: "genres2 ! 0 = [x, y, z]"
    by (auto simp: length_Suc_conv numeral_3_eq_3)
  from e0 e1 e2 have "genres2 ! 0 = [c * 1, c * (ln (3 / 2) + 1), c * 0]"
    unfolding xyz by simp
  with c(1) have "\<exists>c. 0 < c \<and> genres2 ! 0 = [c * 1, c * (ln (3 / 2) + 1), c * 0]"
    by blast
  with a fe2 s d g l show ?thesis by blast
qed

text \<open>
  C8, as stated, fails on the empty catalog: the call neither returns the empty list nor
  raises a size error of its own (the code has none); the vectorizer raises its
  empty-vocabulary \<^verbatim>\<open>ValueError\<close> on the empty list of texts.
\<close>

theorem empty_catalog_counterexample:
  "fst (calculate_similarity example_env (init []) ''Inception'') = Inl EmptyVocabulary \<and>
   Inl EmptyVocabulary \<noteq> (Inr [] :: error + string list)"
proof -
  have "fst (calculate_similarity example_env (init []) ''Inception'') = Inl EmptyVocabulary"
    by (rule calculate_similarity_build_error) (simp_all add: fe_empty)
  then show ?thesis by simp
qed

text \<open>
  C8, amended: on a catalog of at most one movie no slice fails. With no movie every
  call raises the empty-vocabulary error of the vectorizer. With one movie a call that
  returns returns the empty list, and it does return for the movie's own title whenever
  the feature build succeeds.
\<close>

theorem degenerate_catalog:
  assumes "length ms \<le> 1"
  shows "(ms = [] \<longrightarrow> fst (calculate_similarity e (init ms) t) = Inl EmptyVocabulary) \<and>
         (\<forall>recs. fst (calculate_similarity e (init ms) t) = Inr recs \<longrightarrow> recs = []) \<and>
         (\<forall>m M. ms = [m] \<and> t = title m \<and> feature_engineering e ms = Inr M \<longrightarrow>
            fst (calculate_similarity e (init ms) t) = Inr [])"
proof (intro conjI allI impI)
  assume "ms = []"
  then show "fst (calculate_similarity e (init ms) t) = Inl EmptyVocabulary"
    by (intro calculate_similarity_build_error) (simp_all add: fe_empty)
next
  fix recs assume "fst (calculate_similarity e (init ms) t) = Inr recs"
  from length_recommendations[OF consistent_init this] assms show "recs = []" by simp
next
  fix m M assume a: "ms = [m] \<and> t = title m \<and> feature_engineering e ms = Inr M"
  then have ms: "ms = [m]" and t: "t = title m" by blast+
  from a have fe: "feature_engineering e [m] = Inr M" by auto
  from length_feature_engineering[OF fe] have "length M = 1" by simp
  then show "fst (calculate_similarity e (init ms) t) = Inr []"
    unfolding ms t
    by (simp add: calculate_similarity_init[OF fe] most_similar_indices_def length_argsort
        length_cosine_similarity)
qed

theorem degenerate_catalog_witness:
  "length catalog1 \<le> 1 \<and> catalog1 = [drama ''Drama One''] \<and>
   ''Drama One'' = title (drama ''Drama One'') \<and>
   feature_engineering example_env catalog1 = Inr [[1, 1, 1, 0, 0, 0, 0, 0]] \<and>
   fst (calculate_similarity example_env (init catalog1) ''Drama One'') = Inr []"
proof -
  have l: "length catalog1 \<le> 1" by (simp add: catalog1_def)
  have h: "catalog1 = [drama ''Drama One''] \<and> ''Drama One'' = title (drama ''Drama One'') \<and>
    feature_engineering example_env catalog1 = Inr [[1, 1, 1, 0, 0, 0, 0, 0]]"
    by (simp add: catalog1_def fe1) (simp add: drama_def)
  from degenerate_catalog[OF l, of example_env "''Drama One''"] h l show ?thesis by blast
qed



text \<open>
  C10: a title that occurs in the movie list is mapped by the index to the number of its
  last occurrence, and the call for this title scores all rows against the row of that
  last occurrence.
\<close>

theorem duplicate_title_last_index:
  assumes "k < length ms" and "title (ms ! k) = t"
  shows "\<exists>j. movie_indices (init ms) t = Some j \<and> j < length ms \<and> title (ms ! j) = t \<and>
           (\<forall>i<length ms. title (ms ! i) = t \<longrightarrow> i \<le> j) \<and>
           (\<forall>M. feature_engineering e ms = Inr M \<longrightarrow>
              fst (calculate_similarity e (init ms) t) =
                Inr (map (\<lambda>i. title (ms ! i))
                       (most_similar_indices e (cosine_similarity (M ! j) M))))"
proof -
  from index_titles_last[OF assms] obtain j where
    j: "index_titles 0 ms Map.empty t = Some j" and
    p: "j < length ms" "title (ms ! j) = t" "\<forall>i<length ms. title (ms ! i) = t \<longrightarrow> i \<le> j"
    by blast
  have "fst (calculate_similarity e (init ms) t) =
          Inr (map (\<lambda>i. title (ms ! i)) (most_similar_indices e (cosine_similarity (M ! j) M)))"
    if "feature_engineering e ms = Inr M" for M
    by (simp add: calculate_similarity_init[OF that] j)
  with j p show ?thesis by (simp add: movie_indices_init)
qed

theorem duplicate_title_last_index_witness:
  "(0::nat) < length catalog_dup \<and> title (catalog_dup ! 0) = ''Heat'' \<and>
   title (catalog_dup ! 2) = ''Heat'' \<and>
   movie_indices (init catalog_dup) ''Heat'' = Some 2 \<and>
   fst (calculate_similarity example_env (init catalog_dup) ''Heat'') = Inr [''Ronin'', ''Heat'']"
proof -
  have a: "(0::nat) < length catalog_dup" and b: "title (catalog_dup ! 0) = ''Heat''"
    and b2: "title (catalog_dup ! 2) = ''Heat''"
    by (simp_all add: catalog_dup_def drama_def action_def)
  have fe: "feature_engineering example_env catalog_dup = Inr matrix3"
    unfolding catalog_dup_def by (rule feature_engineering3)
  from duplicate_title_last_index[OF a b, of example_env] obtain j where
    j: "movie_indices (init catalog_dup) ''Heat'' = Some j" and
    m: "\<forall>i<length catalog_dup. title (catalog_dup ! i) = ''Heat'' \<longrightarrow> i \<le> j" and
    l: "j < length catalog_dup" and
    r: "fst (calculate_similarity example_env (init catalog_dup) ''Heat'') =
          Inr (map (\<lambda>i. title (catalog_dup ! i))
                 (most_similar_indices example_env (cosine_similarity (matrix3 ! j) matrix3)))"
    using fe by blast
  from m b2 have "2 \<le> j" by (simp add: catalog_dup_def)
  with l have j2: "j = Suc (Suc 0)" by (simp add: catalog_dup_def)
  have "fst (calculate_similarity example_env (init catalog_dup) ''Heat'') = Inr [''Ronin'', ''Heat'']"
    unfolding r j2 by (simp add: scores3 most_similar3 catalog_dup_def drama_def action_def)
  with a b b2 j j2 show ?thesis by simp
qed

end
